theory Spec2Isabelle
  imports Main "HOL-Library.Word"
begin

unbundle bit_operations_syntax

section \<open>The Go values that timestamp.go works on\<close>

text \<open>
  \<^verbatim>\<open>timestamp.go\<close> is written against Go's standard library: \<^verbatim>\<open>time.Time\<close>,
  the struct \<^verbatim>\<open>sql.NullTime\<close>, \<^verbatim>\<open>strconv.FormatInt\<close>, \<^verbatim>\<open>strconv.ParseInt\<close>
  and \<^verbatim>\<open>json.Unmarshal\<close>. The sections before \<open>timestamp.go\<close> embed those library
  functions as the Go distribution writes them (the repository builds with Go 1.16).
  The section \<open>timestamp.go\<close> embeds the repository's own functions, one for one
  and under their own names. A method with a pointer receiver takes the receiver and
  returns it as it is after the call, beside the error; a nil error is \<open>None\<close>.

  A byte slice and a Go string are both a \<^typ>\<open>string\<close>: a list of 8-bit characters.
  \<^verbatim>\<open>int64\<close> and \<^verbatim>\<open>uint64\<close> are 64-bit words; \<open>sint\<close> reads an \<^verbatim>\<open>int64\<close>.
\<close>

type_synonym int64 = "64 word"
type_synonym uint64 = "64 word"

subsection \<open>time.Time\<close>

text \<open>
  A \<^verbatim>\<open>*time.Location\<close> is a pointer; only its identity matters here. \<open>None\<close> is the
  nil pointer, \<open>Some a\<close> the address \<open>a\<close>. \<^verbatim>\<open>&utcLoc\<close> and \<^verbatim>\<open>&localLoc\<close>
  (\<^verbatim>\<open>time.UTC\<close> and \<^verbatim>\<open>time.Local\<close>) are two fixed, distinct addresses.
\<close>

type_synonym Location_ptr = "nat option"

definition utcLoc_addr :: Location_ptr where
  "utcLoc_addr = Some 0"

definition Local :: Location_ptr where
  "Local = Some 1"

text \<open>
  \<^verbatim>\<open>type Time struct { wall uint64; ext int64; loc *Location }\<close>. The zero value
  \<^verbatim>\<open>time.Time{}\<close> has all three fields zero.
\<close>

record Time =
  wall :: uint64
  ext :: int64
  loc :: Location_ptr

definition Time_zero :: Time where
  "Time_zero = \<lparr>wall = 0, ext = 0, loc = None\<rparr>"

definition hasMonotonic :: uint64 where
  "hasMonotonic = push_bit 63 1"

definition nsecMask :: uint64 where
  "nsecMask = push_bit 30 1 - 1"

definition nsecShift :: nat where
  "nsecShift = 30"

text \<open>Seconds from year 1 to 1970 and to 1885, as \<^verbatim>\<open>time.go\<close> computes them.\<close>

definition unixToInternal :: int64 where
  "unixToInternal = (1969 * 365 + 1969 div 4 - 1969 div 100 + 1969 div 400) * 86400"

definition internalToUnix :: int64 where
  "internalToUnix = - unixToInternal"

definition wallToInternal :: int64 where
  "wallToInternal = (1884 * 365 + 1884 div 4 - 1884 div 100 + 1884 div 400) * 86400"

text \<open>\<^verbatim>\<open>func (t *Time) nsec() int32 { return int32(t.wall & nsecMask) }\<close>\<close>

definition time_nsec :: "Time \<Rightarrow> 32 word" where
  "time_nsec t = ucast (wall t AND nsecMask)"

text \<open>
  \<^verbatim>\<open>func (t *Time) sec() int64\<close>: with a monotonic reading the seconds sit in the
  33 bits of \<open>wall\<close> above the nanoseconds, counted from 1885; otherwise they are
  \<open>ext\<close>.
\<close>

definition time_sec :: "Time \<Rightarrow> int64" where
  "time_sec t =
     (if wall t AND hasMonotonic \<noteq> 0
      then wallToInternal + drop_bit (nsecShift + 1) (push_bit 1 (wall t))
      else ext t)"

text \<open>\<^verbatim>\<open>func (t Time) Unix() int64 { return t.unixSec() }\<close>, with
  \<^verbatim>\<open>unixSec() = t.sec() + internalToUnix\<close>.\<close>

definition time_Unix_of :: "Time \<Rightarrow> int64" where
  "time_Unix_of t = time_sec t + internalToUnix"

text \<open>\<^verbatim>\<open>func unixTime(sec int64, nsec int32) Time\<close>, which is
  \<^verbatim>\<open>Time{uint64(nsec), sec + unixToInternal, Local}\<close>; the conversion of the
  \<^verbatim>\<open>int32\<close> extends its sign.\<close>

definition unixTime :: "int64 \<Rightarrow> 32 word \<Rightarrow> Time" where
  "unixTime s n = \<lparr>wall = scast n, ext = s + unixToInternal, loc = Local\<rparr>"

text \<open>
  \<^verbatim>\<open>func Unix(sec int64, nsec int64) Time\<close>. Nanoseconds outside \<open>[0, 1e9)\<close> are
  carried into the seconds; Go's \<^verbatim>\<open>/\<close> on \<^verbatim>\<open>int64\<close> truncates towards zero.
\<close>

definition quo_int64 :: "int64 \<Rightarrow> int64 \<Rightarrow> int64" where
  "quo_int64 a b = word_of_int (sgn (sint a) * sgn (sint b) * (\<bar>sint a\<bar> div \<bar>sint b\<bar>))"

definition time_Unix :: "int64 \<Rightarrow> int64 \<Rightarrow> Time" where
  "time_Unix s n =
     (if n <s 0 \<or> 1000000000 \<le>s n then
        (let q = quo_int64 n 1000000000;
             s1 = s + q;
             n1 = n - q * 1000000000
         in if n1 <s 0 then unixTime (s1 - 1) (ucast (n1 + 1000000000))
            else unixTime s1 (ucast n1))
      else unixTime s (ucast n))"

text \<open>
  \<^verbatim>\<open>func (t Time) Equal(u Time) bool\<close>: two readings of the monotonic clock are
  compared by that clock, anything else by seconds and nanoseconds. The location
  takes no part.
\<close>

definition time_Equal :: "Time \<Rightarrow> Time \<Rightarrow> bool" where
  "time_Equal t u =
     (if wall t AND wall u AND hasMonotonic \<noteq> 0 then ext t = ext u
      else time_sec t = time_sec u \<and> time_nsec t = time_nsec u)"

text \<open>\<^verbatim>\<open>func (t *Time) stripMono()\<close> and \<^verbatim>\<open>func (t *Time) setLoc(loc *Location)\<close>\<close>

definition stripMono :: "Time \<Rightarrow> Time" where
  "stripMono t =
     (if wall t AND hasMonotonic \<noteq> 0
      then t\<lparr>ext := time_sec t, wall := wall t AND nsecMask\<rparr>
      else t)"

definition setLoc :: "Time \<Rightarrow> Location_ptr \<Rightarrow> Time" where
  "setLoc t l = (stripMono t)\<lparr>loc := (if l = utcLoc_addr then None else l)\<rparr>"

text \<open>
  \<^verbatim>\<open>func (t Time) In(loc *Location) Time\<close> panics on a nil location: \<open>None\<close> is
  the panic.
\<close>

definition time_In :: "Time \<Rightarrow> Location_ptr \<Rightarrow> Time option" where
  "time_In t l = (if l = None then None else Some (setLoc t l))"

subsection \<open>Errors\<close>

text \<open>
  The error values that reach the caller of \<^verbatim>\<open>timestamp.go\<close>:
  \<^item> \<^verbatim>\<open>*strconv.NumError{Func, Num, Err}\<close> with \<open>Err\<close> one of \<^verbatim>\<open>ErrSyntax\<close>,
    \<^verbatim>\<open>ErrRange\<close>, "invalid base n", "invalid bit size n";
  \<^item> \<^verbatim>\<open>*json.SyntaxError{msg, Offset}\<close>; the message is either
    \<^verbatim>\<open>"invalid character " + quoteChar(c) + " " + context\<close>, kept as the pair of
    \<open>c\<close> and the context, or \<^verbatim>\<open>"unexpected end of JSON input"\<close>;
  \<^item> \<^verbatim>\<open>*json.UnmarshalTypeError{Value, ...}\<close>, of which the \<open>Value\<close> text is kept;
  \<^item> the type mismatch of a database scan, with its message;
  \<^item> \<^verbatim>\<open>fmt.Errorf(prefix + "%w", err)\<close>: an error that wraps \<open>err\<close>;
  \<^item> what \<^verbatim>\<open>encoding/json\<close> does when its scanner and its decoder disagree (a
    panic, or an error about a misused struct tag), kept as a value with its message
    so that the model is total. The decoder reaches none of them on input that the
    scanner accepted.
\<close>

datatype NumErr = ErrSyntax | ErrRange | ErrBase nat | ErrBitSize nat

datatype json_msg = InvalidCharacter char string | UnexpectedEnd

datatype error =
    NumError string string NumErr
  | SyntaxError json_msg nat
  | UnmarshalTypeError string
  | TypeMismatch string
  | Wrapped string error
  | Other string


section \<open>strconv\<close>

text \<open>A byte is read as its code, a number below 256.\<close>

definition byte :: "char \<Rightarrow> nat" where
  "byte c = of_char c"

text \<open>\<^verbatim>\<open>func lower(c byte) byte { return c | ('x' - 'X') }\<close>\<close>

definition lower :: "nat \<Rightarrow> nat" where
  "lower c = c OR 32"

subsection \<open>FormatInt\<close>

text \<open>\<^verbatim>\<open>const digits = "0123456789abcdefghijklmnopqrstuvwxyz"\<close>\<close>

definition digits :: string where
  "digits = ''0123456789abcdefghijklmnopqrstuvwxyz''"

text \<open>
  \<^verbatim>\<open>const nSmalls = 100\<close> and \<^verbatim>\<open>const smallsString\<close>, the hundred two-digit
  pairs from \<open>00\<close> to \<open>99\<close>.
\<close>

definition nSmalls :: int where
  "nSmalls = 100"

definition smallsString :: string where
  "smallsString =
     ''00010203040506070809'' @
     ''10111213141516171819'' @
     ''20212223242526272829'' @
     ''30313233343536373839'' @
     ''40414243444546474849'' @
     ''50515253545556575859'' @
     ''60616263646566676869'' @
     ''70717273747576777879'' @
     ''80818283848586878889'' @
     ''90919293949596979899''"

text \<open>
  \<^verbatim>\<open>func small(i int) string\<close>, for \<open>0 \<le> i < nSmalls\<close>: the slice
  \<^verbatim>\<open>digits[i : i+1]\<close> or \<^verbatim>\<open>smallsString[i*2 : i*2+2]\<close>.
\<close>

definition small :: "nat \<Rightarrow> string" where
  "small i = (if i < 10 then take 1 (drop i digits) else take 2 (drop (i * 2) smallsString))"

text \<open>
  The base 10 branch of \<^verbatim>\<open>formatBits\<close> on a 64-bit host. It fills its buffer from
  the right, two digits at a time:
  \<^verbatim>\<open>for us >= 100 { is := us % 100 * 2; us /= 100; i -= 2;
        a[i+1] = smallsString[is+1]; a[i+0] = smallsString[is+0] }\<close>
  and then, for \<open>us < 100\<close>,
  \<^verbatim>\<open>is := us * 2; i--; a[i] = smallsString[is+1];
    if us >= 10 { i--; a[i] = smallsString[is] }\<close>.
  \<open>a\<close> is the part of the buffer already written. Every index is below 200, the
  length of \<open>smallsString\<close>.
\<close>

function formatBits_loop :: "nat \<Rightarrow> string \<Rightarrow> string" where
  "formatBits_loop us a =
     (if 100 \<le> us then
        (let is = us mod 100 * 2
         in formatBits_loop (us div 100) (smallsString ! is # smallsString ! (is + 1) # a))
      else
        (let is = us * 2;
             a1 = smallsString ! (is + 1) # a
         in if 10 \<le> us then smallsString ! is # a1 else a1))"
  by pat_completeness auto
termination
  by (relation "measure (\<lambda>(us, a). us)") auto

text \<open>
  \<^verbatim>\<open>func formatBits(dst []byte, u uint64, base int, neg, append_ bool)\<close> as
  \<^verbatim>\<open>FormatInt(i, 10)\<close> calls it, with base 10 and nothing to append to:
  \<^verbatim>\<open>if neg { u = -u }\<close> on the \<^verbatim>\<open>uint64\<close>, the digits, then the sign.
\<close>

definition formatBits :: "uint64 \<Rightarrow> bool \<Rightarrow> string" where
  "formatBits u neg =
     (let ds = formatBits_loop (unat (if neg then - u else u)) []
      in if neg then CHR ''-'' # ds else ds)"

text \<open>
  \<^verbatim>\<open>strconv.FormatInt(i, 10)\<close>:
  \<^verbatim>\<open>if fastSmalls && 0 <= i && i < nSmalls && base == 10 { return small(int(i)) }\<close>,
  otherwise \<^verbatim>\<open>formatBits(nil, uint64(i), base, i < 0, false)\<close>.
\<close>

definition FormatInt_10 :: "int64 \<Rightarrow> string" where
  "FormatInt_10 i =
     (if 0 \<le> sint i \<and> sint i < nSmalls then small (nat (sint i))
      else formatBits i (i <s 0))"

text \<open>
  For comparison, the decimal digits of a natural number, most significant first,
  one digit at a time.
\<close>

function dec :: "nat \<Rightarrow> string" where
  "dec u = (if 10 \<le> u then dec (u div 10) @ [digits ! (u mod 10)] else [digits ! u])"
  by pat_completeness auto
termination
  by (relation "measure (\<lambda>u. u)") auto

text \<open>
  And the decimal ASCII representation of an integer as the specification words it,
  written without reference to the library: the digits of the magnitude, most
  significant first, \<open>0\<close> for zero, a minus sign before a negative number.
  \<open>char_of (48 + d)\<close> is the ASCII character of the digit \<open>d\<close>.
\<close>

function decimal_ascii :: "nat \<Rightarrow> string" where
  "decimal_ascii n =
     (if n < 10 then [char_of (48 + n)]
      else decimal_ascii (n div 10) @ [char_of (48 + n mod 10)])"
  by pat_completeness auto
termination
  by (relation "measure (\<lambda>n. n)") auto

definition decimal_ascii_int :: "int \<Rightarrow> string" where
  "decimal_ascii_int k =
     (if k < 0 then CHR ''-'' # decimal_ascii (nat (- k)) else decimal_ascii (nat k))"

subsection \<open>ParseUint and ParseInt\<close>

text \<open>
  The value of one byte as a digit, the \<^verbatim>\<open>switch\<close> at the head of the loop of
  \<^verbatim>\<open>ParseUint\<close>: \<open>None\<close> is its \<^verbatim>\<open>default\<close> branch.
\<close>

definition digit_val :: "char \<Rightarrow> nat option" where
  "digit_val c =
     (if byte CHR ''0'' \<le> byte c \<and> byte c \<le> byte CHR ''9'' then Some (byte c - byte CHR ''0'')
      else if byte CHR ''a'' \<le> lower (byte c) \<and> lower (byte c) \<le> byte CHR ''z''
      then Some (lower (byte c) - byte CHR ''a'' + 10)
      else None)"

text \<open>
  The loop of \<^verbatim>\<open>ParseUint\<close> over the bytes of \<open>s\<close>. The \<^verbatim>\<open>uint64\<close> accumulator
  \<open>n\<close> is a natural number and every product and sum is taken modulo \<open>2 ^ 64\<close>.
  The result is the accumulator with the \<open>underscores\<close> flag, or the kind of the
  error.
\<close>

fun ParseUint_loop :: "nat \<Rightarrow> bool \<Rightarrow> nat \<Rightarrow> nat \<Rightarrow> nat \<Rightarrow> bool \<Rightarrow> string \<Rightarrow> NumErr + nat \<times> bool" where
  "ParseUint_loop b base0 cutoff maxVal n underscores [] = Inr (n, underscores)"
| "ParseUint_loop b base0 cutoff maxVal n underscores (c # cs) =
     (if c = CHR ''_'' \<and> base0 then ParseUint_loop b base0 cutoff maxVal n True cs
      else case digit_val c of
        None \<Rightarrow> Inl ErrSyntax
      | Some d \<Rightarrow>
          if b \<le> d then Inl ErrSyntax
          else if cutoff \<le> n then Inl ErrRange
          else
            (let n0 = (n * b) mod 2 ^ 64;
                 n1 = (n0 + d) mod 2 ^ 64
             in if n1 < n0 \<or> maxVal < n1 then Inl ErrRange
                else ParseUint_loop b base0 cutoff maxVal n1 underscores cs))"

text \<open>
  \<^verbatim>\<open>func underscoreOK(s string) bool\<close>: underscores only between digits or between
  a base prefix and a digit. \<open>saw\<close> is the last kind of character seen.
\<close>

fun underscoreOK_loop :: "bool \<Rightarrow> char \<Rightarrow> string \<Rightarrow> bool" where
  "underscoreOK_loop hex saw [] = (saw \<noteq> CHR ''_'')"
| "underscoreOK_loop hex saw (c # cs) =
     (if byte CHR ''0'' \<le> byte c \<and> byte c \<le> byte CHR ''9''
         \<or> hex \<and> byte CHR ''a'' \<le> lower (byte c) \<and> lower (byte c) \<le> byte CHR ''f''
      then underscoreOK_loop hex (CHR ''0'') cs
      else if c = CHR ''_''
      then (if saw \<noteq> CHR ''0'' then False else underscoreOK_loop hex (CHR ''_'') cs)
      else if saw = CHR ''_'' then False
      else underscoreOK_loop hex (CHR ''!'') cs)"

definition is_base_prefix :: "string \<Rightarrow> bool" where
  "is_base_prefix s =
     (case s of
        c0 # c1 # _ \<Rightarrow>
          c0 = CHR ''0'' \<and> (lower (byte c1) = byte CHR ''b'' \<or> lower (byte c1) = byte CHR ''o''
                            \<or> lower (byte c1) = byte CHR ''x'')
      | _ \<Rightarrow> False)"

definition underscoreOK :: "string \<Rightarrow> bool" where
  "underscoreOK s0 =
     (let s = (case s0 of c # cs \<Rightarrow> if c = CHR ''-'' \<or> c = CHR ''+'' then cs else s0 | [] \<Rightarrow> s0)
      in if is_base_prefix s
         then underscoreOK_loop (lower (byte (s ! 1)) = byte CHR ''x'') (CHR ''0'') (drop 2 s)
         else underscoreOK_loop False (CHR ''^'') s)"

text \<open>\<^verbatim>\<open>const IntSize\<close> and \<^verbatim>\<open>maxUint64\<close> on a 64-bit platform.\<close>

definition IntSize :: nat where
  "IntSize = 64"

definition maxUint64 :: nat where
  "maxUint64 = 2 ^ 64 - 1"

text \<open>
  \<^verbatim>\<open>func ParseUint(s string, base int, bitSize int) (uint64, error)\<close>. Go returns a
  value beside every error, and \<^verbatim>\<open>ParseInt\<close> reads it after a range error, so the
  model returns the pair. With base 0 the base comes from the prefix: \<open>0b\<close>, \<open>0o\<close>,
  \<open>0x\<close> (when at least one more byte follows), a bare leading \<open>0\<close> for octal,
  base 10 otherwise.
\<close>

definition ParseUint :: "string \<Rightarrow> nat \<Rightarrow> nat \<Rightarrow> nat \<times> error option" where
  "ParseUint s0 b bitSize0 =
     (if s0 = [] then (0, Some (NumError ''ParseUint'' s0 ErrSyntax))
      else if \<not> (2 \<le> b \<and> b \<le> 36) \<and> b \<noteq> 0 then (0, Some (NumError ''ParseUint'' s0 (ErrBase b)))
      else
        (let base0 = (b = 0);
             (b1, s) =
               (if b \<noteq> 0 then (b, s0)
                else if hd s0 = CHR ''0'' then
                  (if 3 \<le> length s0 \<and> lower (byte (s0 ! 1)) = byte CHR ''b'' then (2, drop 2 s0)
                   else if 3 \<le> length s0 \<and> lower (byte (s0 ! 1)) = byte CHR ''o'' then (8, drop 2 s0)
                   else if 3 \<le> length s0 \<and> lower (byte (s0 ! 1)) = byte CHR ''x'' then (16, drop 2 s0)
                   else (8, drop 1 s0))
                else (10, s0));
             bitSize = (if bitSize0 = 0 then IntSize else bitSize0)
         in if 64 < bitSize then (0, Some (NumError ''ParseUint'' s0 (ErrBitSize bitSize)))
            else
              (let cutoff = maxUint64 div b1 + 1;
                   maxVal = 2 ^ bitSize - 1
               in case ParseUint_loop b1 base0 cutoff maxVal 0 False s of
                    Inl ErrRange \<Rightarrow> (maxVal, Some (NumError ''ParseUint'' s0 ErrRange))
                  | Inl e \<Rightarrow> (0, Some (NumError ''ParseUint'' s0 e))
                  | Inr (n, underscores) \<Rightarrow>
                      if underscores \<and> \<not> underscoreOK s0
                      then (0, Some (NumError ''ParseUint'' s0 ErrSyntax))
                      else (n, None))))"

text \<open>
  \<^verbatim>\<open>func ParseInt(s string, base int, bitSize int) (i int64, err error)\<close>: the sign
  is picked off, the rest goes through \<^verbatim>\<open>ParseUint\<close>, and the magnitude is checked
  against \<open>2 ^ (bitSize - 1)\<close>. \<^verbatim>\<open>int64(un)\<close> and the negation wrap.
\<close>

definition is_ErrRange :: "error option \<Rightarrow> bool" where
  "is_ErrRange e = (case e of Some (NumError _ _ ErrRange) \<Rightarrow> True | _ \<Rightarrow> False)"

definition ParseInt :: "string \<Rightarrow> nat \<Rightarrow> nat \<Rightarrow> error + int64" where
  "ParseInt s0 b bitSize0 =
     (if s0 = [] then Inl (NumError ''ParseInt'' s0 ErrSyntax)
      else
        (let neg = (hd s0 = CHR ''-'');
             s = (if hd s0 = CHR ''+'' \<or> hd s0 = CHR ''-'' then tl s0 else s0);
             (un, e) = ParseUint s b bitSize0
         in case (if is_ErrRange e then None else e) of
              Some (NumError _ _ k) \<Rightarrow> Inl (NumError ''ParseInt'' s0 k)
            | Some other \<Rightarrow> Inl other
            | None \<Rightarrow>
                (let bitSize = (if bitSize0 = 0 then IntSize else bitSize0);
                     cutoff = 2 ^ (bitSize - 1)
                 in if \<not> neg \<and> cutoff \<le> un then Inl (NumError ''ParseInt'' s0 ErrRange)
                    else if neg \<and> cutoff < un then Inl (NumError ''ParseInt'' s0 ErrRange)
                    else Inr (if neg then - word_of_nat un else word_of_nat un))))"


text \<open>
  For comparison, the number that a string of digits denotes in base \<open>b\<close>, read
  from the left starting at \<open>n\<close>: each digit multiplies what came before by \<open>b\<close>
  and adds its own value.
\<close>

fun digits_value :: "nat \<Rightarrow> nat \<Rightarrow> string \<Rightarrow> nat" where
  "digits_value b n [] = n"
| "digits_value b n (c # cs) =
     digits_value b (n * b + (case digit_val c of Some d \<Rightarrow> d | None \<Rightarrow> 0)) cs"

section \<open>encoding/json: the scanner and Unmarshal into an int64\<close>

datatype opcode =
    scanContinue | scanBeginLiteral | scanBeginObject | scanObjectKey | scanObjectValue
  | scanEndObject | scanBeginArray | scanArrayValue | scanEndArray | scanSkipSpace
  | scanEnd | scanError

datatype parse_state = parseObjectKey | parseObjectValue | parseArrayValue

text \<open>
  The scanner's \<open>step\<close> field is a function value in Go. Here it is the tag of that
  function, and \<open>scan_step\<close> below calls the function a tag names.
\<close>

datatype step_fn =
    st_BeginValueOrEmpty | st_BeginValue | st_BeginStringOrEmpty | st_BeginString
  | st_EndValue | st_EndTop | st_InString | st_InStringEsc | st_InStringEscU
  | st_InStringEscU1 | st_InStringEscU12 | st_InStringEscU123
  | st_Neg | st_1 | st_0 | st_Dot | st_Dot0 | st_E | st_ESign | st_E0
  | st_T | st_Tr | st_Tru | st_F | st_Fa | st_Fal | st_Fals | st_N | st_Nu | st_Nul
  | st_Error

text \<open>
  \<^verbatim>\<open>type scanner struct\<close>. The stack \<open>parseState\<close> has its top at the head of the
  list (Go appends and reads the last element).
\<close>

record scanner =
  step :: step_fn
  endTop :: bool
  parseState :: "parse_state list"
  err :: "error option"
  bytes :: nat

definition maxNestingDepth :: nat where
  "maxNestingDepth = 10000"

definition reset :: "scanner \<Rightarrow> scanner" where
  "reset s = s\<lparr>step := st_BeginValue, parseState := [], err := None, endTop := False\<rparr>"

definition isSpace :: "char \<Rightarrow> bool" where
  "isSpace c = (byte c \<le> byte CHR '' '' \<and>
     (c = CHR '' '' \<or> c = CHR 0x09 \<or> c = CHR 0x0D \<or> c = CHR 0x0A))"

text \<open>\<^verbatim>\<open>func (s *scanner) error(c byte, context string) int\<close>\<close>

definition scanner_error :: "scanner \<Rightarrow> char \<Rightarrow> string \<Rightarrow> opcode \<times> scanner" where
  "scanner_error s c context =
     (scanError, s\<lparr>step := st_Error, err := Some (SyntaxError (InvalidCharacter c context) (bytes s))\<rparr>)"

definition pushParseState :: "scanner \<Rightarrow> char \<Rightarrow> parse_state \<Rightarrow> opcode \<Rightarrow> opcode \<times> scanner" where
  "pushParseState s c newParseState successState =
     (let s1 = s\<lparr>parseState := newParseState # parseState s\<rparr>
      in if length (parseState s1) \<le> maxNestingDepth then (successState, s1)
         else scanner_error s1 c ''exceeded max depth'')"

definition popParseState :: "scanner \<Rightarrow> scanner" where
  "popParseState s =
     (let ps = tl (parseState s)
      in if ps = [] then s\<lparr>parseState := ps, step := st_EndTop, endTop := True\<rparr>
         else s\<lparr>parseState := ps, step := st_EndValue\<rparr>)"

definition stateEndTop :: "scanner \<Rightarrow> char \<Rightarrow> opcode \<times> scanner" where
  "stateEndTop s c =
     (if \<not> isSpace c then (scanEnd, snd (scanner_error s c ''after top-level value''))
      else (scanEnd, s))"

definition stateEndValue :: "scanner \<Rightarrow> char \<Rightarrow> opcode \<times> scanner" where
  "stateEndValue s c =
     (case parseState s of
        [] \<Rightarrow> stateEndTop (s\<lparr>step := st_EndTop, endTop := True\<rparr>) c
      | ps # rest \<Rightarrow>
          if isSpace c then (scanSkipSpace, s\<lparr>step := st_EndValue\<rparr>)
          else (case ps of
            parseObjectKey \<Rightarrow>
              if c = CHR '':''
              then (scanObjectKey, s\<lparr>parseState := parseObjectValue # rest, step := st_BeginValue\<rparr>)
              else scanner_error s c ''after object key''
          | parseObjectValue \<Rightarrow>
              if c = CHR '',''
              then (scanObjectValue, s\<lparr>parseState := parseObjectKey # rest, step := st_BeginString\<rparr>)
              else if c = CHR ''}'' then (scanEndObject, popParseState s)
              else scanner_error s c ''after object key:value pair''
          | parseArrayValue \<Rightarrow>
              if c = CHR '','' then (scanArrayValue, s\<lparr>step := st_BeginValue\<rparr>)
              else if c = CHR '']'' then (scanEndArray, popParseState s)
              else scanner_error s c ''after array element''))"

definition stateBeginValue :: "scanner \<Rightarrow> char \<Rightarrow> opcode \<times> scanner" where
  "stateBeginValue s c =
     (if isSpace c then (scanSkipSpace, s)
      else if c = CHR ''{'' then pushParseState (s\<lparr>step := st_BeginStringOrEmpty\<rparr>) c parseObjectKey scanBeginObject
      else if c = CHR ''['' then pushParseState (s\<lparr>step := st_BeginValueOrEmpty\<rparr>) c parseArrayValue scanBeginArray
      else if c = CHR 0x22 then (scanBeginLiteral, s\<lparr>step := st_InString\<rparr>)
      else if c = CHR ''-'' then (scanBeginLiteral, s\<lparr>step := st_Neg\<rparr>)
      else if c = CHR ''0'' then (scanBeginLiteral, s\<lparr>step := st_0\<rparr>)
      else if c = CHR ''t'' then (scanBeginLiteral, s\<lparr>step := st_T\<rparr>)
      else if c = CHR ''f'' then (scanBeginLiteral, s\<lparr>step := st_F\<rparr>)
      else if c = CHR ''n'' then (scanBeginLiteral, s\<lparr>step := st_N\<rparr>)
      else if byte CHR ''1'' \<le> byte c \<and> byte c \<le> byte CHR ''9'' then (scanBeginLiteral, s\<lparr>step := st_1\<rparr>)
      else scanner_error s c ''looking for beginning of value'')"

definition stateBeginValueOrEmpty :: "scanner \<Rightarrow> char \<Rightarrow> opcode \<times> scanner" where
  "stateBeginValueOrEmpty s c =
     (if isSpace c then (scanSkipSpace, s)
      else if c = CHR '']'' then stateEndValue s c
      else stateBeginValue s c)"

definition stateBeginString :: "scanner \<Rightarrow> char \<Rightarrow> opcode \<times> scanner" where
  "stateBeginString s c =
     (if isSpace c then (scanSkipSpace, s)
      else if c = CHR 0x22 then (scanBeginLiteral, s\<lparr>step := st_InString\<rparr>)
      else scanner_error s c ''looking for beginning of object key string'')"

text \<open>
  \<^verbatim>\<open>stateBeginStringOrEmpty\<close> writes \<^verbatim>\<open>s.parseState[n-1]\<close>; on an empty stack that
  is Go's index panic. The state is entered only by pushing an object.
\<close>

definition stateBeginStringOrEmpty :: "scanner \<Rightarrow> char \<Rightarrow> opcode \<times> scanner" where
  "stateBeginStringOrEmpty s c =
     (if isSpace c then (scanSkipSpace, s)
      else if c = CHR ''}'' then
        (case parseState s of
           [] \<Rightarrow> (scanError, s\<lparr>step := st_Error, err := Some (Other ''index out of range'')\<rparr>)
         | _ # rest \<Rightarrow> stateEndValue (s\<lparr>parseState := parseObjectValue # rest\<rparr>) c)
      else stateBeginString s c)"

definition stateInString :: "scanner \<Rightarrow> char \<Rightarrow> opcode \<times> scanner" where
  "stateInString s c =
     (if c = CHR 0x22 then (scanContinue, s\<lparr>step := st_EndValue\<rparr>)
      else if c = CHR 0x5C then (scanContinue, s\<lparr>step := st_InStringEsc\<rparr>)
      else if byte c < 32 then scanner_error s c ''in string literal''
      else (scanContinue, s))"

definition stateInStringEsc :: "scanner \<Rightarrow> char \<Rightarrow> opcode \<times> scanner" where
  "stateInStringEsc s c =
     (if c \<in> {CHR ''b'', CHR ''f'', CHR ''n'', CHR ''r'', CHR ''t'', CHR 0x5C, CHR ''/'', CHR 0x22}
      then (scanContinue, s\<lparr>step := st_InString\<rparr>)
      else if c = CHR ''u'' then (scanContinue, s\<lparr>step := st_InStringEscU\<rparr>)
      else scanner_error s c ''in string escape code'')"

definition isHex :: "char \<Rightarrow> bool" where
  "isHex c = (byte CHR ''0'' \<le> byte c \<and> byte c \<le> byte CHR ''9''
            \<or> byte CHR ''a'' \<le> byte c \<and> byte c \<le> byte CHR ''f''
            \<or> byte CHR ''A'' \<le> byte c \<and> byte c \<le> byte CHR ''F'')"

text \<open>\<^verbatim>\<open>stateInStringEscU\<close>, \<^verbatim>\<open>...U1\<close>, \<^verbatim>\<open>...U12\<close>, \<^verbatim>\<open>...U123\<close>: one hexadecimal
  digit each, \<open>next\<close> the state that follows.\<close>

definition stateInStringEscU_any :: "step_fn \<Rightarrow> scanner \<Rightarrow> char \<Rightarrow> opcode \<times> scanner" where
  "stateInStringEscU_any next s c =
     (if isHex c then (scanContinue, s\<lparr>step := next\<rparr>)
      else scanner_error s c (''in '' @ [CHR 0x5C] @ ''u hexadecimal character escape''))"

definition isDigit :: "char \<Rightarrow> bool" where
  "isDigit c = (byte CHR ''0'' \<le> byte c \<and> byte c \<le> byte CHR ''9'')"

definition stateNeg :: "scanner \<Rightarrow> char \<Rightarrow> opcode \<times> scanner" where
  "stateNeg s c =
     (if c = CHR ''0'' then (scanContinue, s\<lparr>step := st_0\<rparr>)
      else if byte CHR ''1'' \<le> byte c \<and> byte c \<le> byte CHR ''9'' then (scanContinue, s\<lparr>step := st_1\<rparr>)
      else scanner_error s c ''in numeric literal'')"

definition state0 :: "scanner \<Rightarrow> char \<Rightarrow> opcode \<times> scanner" where
  "state0 s c =
     (if c = CHR ''.'' then (scanContinue, s\<lparr>step := st_Dot\<rparr>)
      else if c = CHR ''e'' \<or> c = CHR ''E'' then (scanContinue, s\<lparr>step := st_E\<rparr>)
      else stateEndValue s c)"

definition state1 :: "scanner \<Rightarrow> char \<Rightarrow> opcode \<times> scanner" where
  "state1 s c =
     (if isDigit c then (scanContinue, s\<lparr>step := st_1\<rparr>)
      else state0 s c)"

definition stateDot :: "scanner \<Rightarrow> char \<Rightarrow> opcode \<times> scanner" where
  "stateDot s c =
     (if isDigit c then (scanContinue, s\<lparr>step := st_Dot0\<rparr>)
      else scanner_error s c ''after decimal point in numeric literal'')"

definition stateDot0 :: "scanner \<Rightarrow> char \<Rightarrow> opcode \<times> scanner" where
  "stateDot0 s c =
     (if isDigit c then (scanContinue, s)
      else if c = CHR ''e'' \<or> c = CHR ''E'' then (scanContinue, s\<lparr>step := st_E\<rparr>)
      else stateEndValue s c)"

definition stateESign :: "scanner \<Rightarrow> char \<Rightarrow> opcode \<times> scanner" where
  "stateESign s c =
     (if isDigit c then (scanContinue, s\<lparr>step := st_E0\<rparr>)
      else scanner_error s c ''in exponent of numeric literal'')"

definition stateE :: "scanner \<Rightarrow> char \<Rightarrow> opcode \<times> scanner" where
  "stateE s c =
     (if c = CHR ''+'' \<or> c = CHR ''-'' then (scanContinue, s\<lparr>step := st_ESign\<rparr>)
      else stateESign s c)"

definition stateE0 :: "scanner \<Rightarrow> char \<Rightarrow> opcode \<times> scanner" where
  "stateE0 s c =
     (if isDigit c then (scanContinue, s)
      else stateEndValue s c)"

text \<open>The states inside \<^verbatim>\<open>true\<close>, \<^verbatim>\<open>false\<close> and \<^verbatim>\<open>null\<close>: the one byte \<open>want\<close>
  leads to \<open>next\<close>, any other is an error with the context \<open>ctx\<close>.\<close>

definition expecting :: "string \<Rightarrow> char \<Rightarrow> string" where
  "expecting lit c = ''in literal '' @ lit @ '' (expecting '' @ [CHR 0x27, c, CHR 0x27] @ '')''"

definition stateLit :: "char \<Rightarrow> step_fn \<Rightarrow> string \<Rightarrow> scanner \<Rightarrow> char \<Rightarrow> opcode \<times> scanner" where
  "stateLit want next ctx s c =
     (if c = want then (scanContinue, s\<lparr>step := next\<rparr>) else scanner_error s c ctx)"

definition scan_step :: "scanner \<Rightarrow> char \<Rightarrow> opcode \<times> scanner" where
  "scan_step s c =
     (case step s of
        st_BeginValueOrEmpty \<Rightarrow> stateBeginValueOrEmpty s c
      | st_BeginValue \<Rightarrow> stateBeginValue s c
      | st_BeginStringOrEmpty \<Rightarrow> stateBeginStringOrEmpty s c
      | st_BeginString \<Rightarrow> stateBeginString s c
      | st_EndValue \<Rightarrow> stateEndValue s c
      | st_EndTop \<Rightarrow> stateEndTop s c
      | st_InString \<Rightarrow> stateInString s c
      | st_InStringEsc \<Rightarrow> stateInStringEsc s c
      | st_InStringEscU \<Rightarrow> stateInStringEscU_any st_InStringEscU1 s c
      | st_InStringEscU1 \<Rightarrow> stateInStringEscU_any st_InStringEscU12 s c
      | st_InStringEscU12 \<Rightarrow> stateInStringEscU_any st_InStringEscU123 s c
      | st_InStringEscU123 \<Rightarrow> stateInStringEscU_any st_InString s c
      | st_Neg \<Rightarrow> stateNeg s c
      | st_1 \<Rightarrow> state1 s c
      | st_0 \<Rightarrow> state0 s c
      | st_Dot \<Rightarrow> stateDot s c
      | st_Dot0 \<Rightarrow> stateDot0 s c
      | st_E \<Rightarrow> stateE s c
      | st_ESign \<Rightarrow> stateESign s c
      | st_E0 \<Rightarrow> stateE0 s c
      | st_T \<Rightarrow> stateLit (CHR ''r'') st_Tr (expecting ''true'' (CHR ''r'')) s c
      | st_Tr \<Rightarrow> stateLit (CHR ''u'') st_Tru (expecting ''true'' (CHR ''u'')) s c
      | st_Tru \<Rightarrow> stateLit (CHR ''e'') st_EndValue (expecting ''true'' (CHR ''e'')) s c
      | st_F \<Rightarrow> stateLit (CHR ''a'') st_Fa (expecting ''false'' (CHR ''a'')) s c
      | st_Fa \<Rightarrow> stateLit (CHR ''l'') st_Fal (expecting ''false'' (CHR ''l'')) s c
      | st_Fal \<Rightarrow> stateLit (CHR ''s'') st_Fals (expecting ''false'' (CHR ''s'')) s c
      | st_Fals \<Rightarrow> stateLit (CHR ''e'') st_EndValue (expecting ''false'' (CHR ''e'')) s c
      | st_N \<Rightarrow> stateLit (CHR ''u'') st_Nu (expecting ''null'' (CHR ''u'')) s c
      | st_Nu \<Rightarrow> stateLit (CHR ''l'') st_Nul (expecting ''null'' (CHR ''l'')) s c
      | st_Nul \<Rightarrow> stateLit (CHR ''l'') st_EndValue (expecting ''null'' (CHR ''l'')) s c
      | st_Error \<Rightarrow> (scanError, s))"

text \<open>\<^verbatim>\<open>func (s *scanner) eof() int\<close>\<close>

definition scanner_eof :: "scanner \<Rightarrow> opcode \<times> scanner" where
  "scanner_eof s =
     (if err s \<noteq> None then (scanError, s)
      else if endTop s then (scanEnd, s)
      else
        (let s1 = snd (scan_step s (CHR '' ''))
         in if endTop s1 then (scanEnd, s1)
            else (scanError,
                  if err s1 = None then s1\<lparr>err := Some (SyntaxError UnexpectedEnd (bytes s1))\<rparr>
                  else s1)))"

text \<open>
  \<^verbatim>\<open>func checkValid(data []byte, scan *scanner) error\<close>: the loop over the bytes,
  then \<open>eof\<close>. The result is Go's \<open>error\<close>: \<open>None\<close> is nil.
\<close>

fun checkValid_loop :: "scanner \<Rightarrow> string \<Rightarrow> error option + scanner" where
  "checkValid_loop s [] = Inr s"
| "checkValid_loop s (c # cs) =
     (let r = scan_step (s\<lparr>bytes := bytes s + 1\<rparr>) c
      in if fst r = scanError then Inl (err (snd r)) else checkValid_loop (snd r) cs)"

definition scanner_zero :: scanner where
  "scanner_zero = \<lparr>step = st_Error, endTop = False, parseState = [], err = None, bytes = 0\<rparr>"

definition checkValid :: "string \<Rightarrow> error option" where
  "checkValid data =
     (case checkValid_loop (reset scanner_zero) data of
        Inl e \<Rightarrow> e
      | Inr s \<Rightarrow> (let r = scanner_eof s in if fst r = scanError then err (snd r) else None))"


subsection \<open>The decoder, for a destination of type int64\<close>

text \<open>
  \<^verbatim>\<open>func (d *decodeState) scanWhile(op int)\<close>: steps the scanner while it answers
  \<open>op\<close>. The result is the first other opcode, the scanner, and the input from the
  byte that gave that opcode on (Go's \<^verbatim>\<open>d.data[d.readIndex():]\<close>).
\<close>

fun scanWhile :: "opcode \<Rightarrow> scanner \<Rightarrow> string \<Rightarrow> opcode \<times> scanner \<times> string" where
  "scanWhile op s [] = (fst (scanner_eof s), snd (scanner_eof s), [])"
| "scanWhile op s (c # cs) =
     (let r = scan_step s c
      in if fst r \<noteq> op then (fst r, snd r, c # cs) else scanWhile op (snd r) cs)"

text \<open>
  \<^verbatim>\<open>func (d *decodeState) rescanLiteral()\<close>: the literal that starts the input, cut
  off by its first byte alone. In a string a backslash skips the byte after it.
\<close>

fun rescan_string :: "string \<Rightarrow> string" where
  "rescan_string [] = []"
| "rescan_string (c # cs) =
     (if c = CHR 0x5C then (case cs of [] \<Rightarrow> [c] | e # rest \<Rightarrow> c # e # rescan_string rest)
      else if c = CHR 0x22 then [c]
      else c # rescan_string cs)"

definition isNumberByte :: "char \<Rightarrow> bool" where
  "isNumberByte c = (isDigit c \<or> c = CHR ''.'' \<or> c = CHR ''e'' \<or> c = CHR ''E''
                     \<or> c = CHR ''+'' \<or> c = CHR ''-'')"

definition rescanLiteral :: "string \<Rightarrow> string" where
  "rescanLiteral data =
     (case data of
        [] \<Rightarrow> []
      | c # cs \<Rightarrow>
          if c = CHR 0x22 then c # rescan_string cs
          else if isDigit c \<or> c = CHR ''-'' then c # takeWhile isNumberByte cs
          else if c = CHR ''t'' then take 4 data
          else if c = CHR ''f'' then take 5 data
          else if c = CHR ''n'' then take 4 data
          else [c])"

text \<open>
  \<^verbatim>\<open>func (d *decodeState) literalStore(item []byte, v reflect.Value, fromQuoted bool)\<close>
  for \<open>v\<close> of kind \<^verbatim>\<open>Int64\<close>: \<^verbatim>\<open>null\<close> is ignored and leaves \<open>v\<close> as it is, a
  boolean or a string is a type error, a number goes through
  \<^verbatim>\<open>strconv.ParseInt(s, 10, 64)\<close> and any failure there is a type error too.
  The result is the saved error or the new value of \<open>v\<close>.
\<close>

definition literalStore :: "string \<Rightarrow> int64 \<Rightarrow> error + int64" where
  "literalStore item v =
     (case item of
        [] \<Rightarrow> Inl (Other ''json: invalid use of ,string struct tag'')
      | c # _ \<Rightarrow>
          if c = CHR ''n'' then Inr v
          else if c = CHR ''t'' \<or> c = CHR ''f'' then Inl (UnmarshalTypeError ''bool'')
          else if c = CHR 0x22 then Inl (UnmarshalTypeError ''string'')
          else if c \<noteq> CHR ''-'' \<and> \<not> isDigit c then Inl (Other ''JSON decoder out of sync - data changing underfoot?'')
          else (case ParseInt item 10 64 of
                  Inl _ \<Rightarrow> Inl (UnmarshalTypeError (''number '' @ item))
                | Inr n \<Rightarrow> Inr n))"

text \<open>
  \<^verbatim>\<open>func (d *decodeState) value(v reflect.Value)\<close> after
  \<^verbatim>\<open>d.scanWhile(scanSkipSpace)\<close>, as \<^verbatim>\<open>unmarshal\<close> runs them on a scanner it has
  reset: an array or an object cannot go into an \<^verbatim>\<open>int64\<close>. The decoder does
  not read the scanner's byte count.
\<close>

definition decode_value :: "string \<Rightarrow> int64 \<Rightarrow> error + int64" where
  "decode_value data v =
     (case scanWhile scanSkipSpace (reset scanner_zero) data of
        (opc, _, rest) \<Rightarrow>
          if opc = scanBeginArray then Inl (UnmarshalTypeError ''array'')
          else if opc = scanBeginObject then Inl (UnmarshalTypeError ''object'')
          else if opc = scanBeginLiteral then literalStore (rescanLiteral rest) v
          else Inl (Other ''JSON decoder out of sync - data changing underfoot?''))"

text \<open>
  \<^verbatim>\<open>var v int64; err := json.Unmarshal(data, &v)\<close>: first the whole input must be
  one valid JSON text, then it is decoded. \<open>Inl\<close> is the error, \<open>Inr\<close> the value of
  \<open>v\<close> after a nil error.
\<close>

definition json_Unmarshal :: "string \<Rightarrow> error + int64" where
  "json_Unmarshal data =
     (case checkValid data of
        Some e \<Rightarrow> Inl e
      | None \<Rightarrow> decode_value data 0)"

section \<open>database/sql: NullTime\<close>

text \<open>
  \<^verbatim>\<open>type NullTime struct { Time time.Time; Valid bool }\<close>
\<close>

record NullTime =
  Time :: Time
  Valid :: bool

text \<open>
  What crosses the database boundary, a \<^verbatim>\<open>driver.Value\<close>: nil, \<^verbatim>\<open>int64\<close>,
  \<^verbatim>\<open>float64\<close> (its 64 bits), \<^verbatim>\<open>bool\<close>, \<^verbatim>\<open>[]byte\<close>, \<^verbatim>\<open>string\<close> or
  \<^verbatim>\<open>time.Time\<close>.
\<close>

datatype driver_Value =
    V_nil | V_int64 int64 | V_float64 uint64 | V_bool bool | V_bytes string
  | V_string string | V_Time Time

section \<open>timestamp.go\<close>

text \<open>
  \<^verbatim>\<open>type Timestamp struct { sql.NullTime }\<close>: the one field is embedded, so a
  \<open>Timestamp\<close> has the fields \<open>Time\<close> and \<open>Valid\<close> of \<open>NullTime\<close> as its own.
\<close>

type_synonym Timestamp = NullTime

text \<open>Modelled from the spec: \<^verbatim>\<open>Scan\<close>, the method that \<open>Timestamp\<close> has through
  the embedded \<^verbatim>\<open>sql.NullTime\<close>. No file of the repository's sources holds its
  code; only the embedding and a test that calls it are there. The spec has it
  accept "null (sets invalid, zero instant); a native time value (sets valid, copies
  it)", and "any other input kind fails with TypeMismatch (unsupported type for
  Timestamp)", after which the "Timestamp remains/becomes invalid". The rest of the
  state after the error is left undefined by the spec: \<open>left\<close> is the instant that
  the failed call leaves in \<open>Time\<close>, and nothing is assumed of it. The result is
  the receiver after the call, and the error.\<close>

definition Scan :: "Timestamp \<Rightarrow> driver_Value \<Rightarrow> Time \<Rightarrow> Timestamp \<times> error option" where
  "Scan t raw left =
     (case raw of
        V_nil \<Rightarrow> (t\<lparr>Time := Time_zero, Valid := False\<rparr>, None)
      | V_Time x \<Rightarrow> (t\<lparr>Time := x, Valid := True\<rparr>, None)
      | _ \<Rightarrow> (t\<lparr>Time := left, Valid := False\<rparr>,
               Some (TypeMismatch ''unsupported type for Timestamp'')))"

text \<open>Modelled from the spec: \<^verbatim>\<open>nullBytes\<close>, a package variable declared in another
  file of the repository; the spec has \<^verbatim>\<open>UnmarshalJSON\<close> compare its input with
  "exactly the literal null".\<close>

definition nullBytes :: string where
  "nullBytes = ''null''"

text \<open>\<^verbatim>\<open>func (t Timestamp) Value() (driver.Value, error)\<close>\<close>

definition Value :: "Timestamp \<Rightarrow> driver_Value \<times> error option" where
  "Value t = (if \<not> Valid t then (V_nil, None) else (V_Time (Time t), None))"

text \<open>\<^verbatim>\<open>func NewTimestamp(t time.Time, valid bool) Timestamp\<close>\<close>

definition NewTimestamp :: "Time \<Rightarrow> bool \<Rightarrow> Timestamp" where
  "NewTimestamp t valid = \<lparr>Time = t, Valid = valid\<rparr>"

text \<open>\<^verbatim>\<open>func TimestampFrom(t time.Time) Timestamp\<close>\<close>

definition TimestampFrom :: "Time \<Rightarrow> Timestamp" where
  "TimestampFrom t = NewTimestamp t True"

text \<open>\<^verbatim>\<open>func TimestampFromPtr(t *time.Time) Timestamp\<close>; \<open>None\<close> is the nil pointer.\<close>

definition TimestampFromPtr :: "Time option \<Rightarrow> Timestamp" where
  "TimestampFromPtr t =
     (case t of None \<Rightarrow> NewTimestamp Time_zero False | Some x \<Rightarrow> NewTimestamp x True)"

text \<open>\<^verbatim>\<open>func (t Timestamp) ValueOrZero() time.Time\<close>\<close>

definition ValueOrZero :: "Timestamp \<Rightarrow> Time" where
  "ValueOrZero t = (if \<not> Valid t then Time_zero else Time t)"

text \<open>\<^verbatim>\<open>func (t Timestamp) MarshalJSON() ([]byte, error)\<close>\<close>

definition MarshalJSON :: "Timestamp \<Rightarrow> string \<times> error option" where
  "MarshalJSON t =
     (if \<not> Valid t then (''null'', None)
      else (FormatInt_10 (time_Unix_of (Time t)), None))"

text \<open>
  \<^verbatim>\<open>func (t *Timestamp) UnmarshalJSON(data []byte) error\<close>: the receiver after the
  call, and the error.
\<close>

definition UnmarshalJSON :: "Timestamp \<Rightarrow> string \<Rightarrow> Timestamp \<times> error option" where
  "UnmarshalJSON t data =
     (if data = nullBytes then (t\<lparr>Valid := False\<rparr>, None)
      else case json_Unmarshal data of
             Inl e \<Rightarrow> (t, Some (Wrapped ''null: couldn't unmarshal JSON: '' e))
           | Inr v \<Rightarrow> (t\<lparr>Time := time_Unix v 0, Valid := True\<rparr>, None))"

text \<open>\<^verbatim>\<open>func (t Timestamp) MarshalText() ([]byte, error)\<close>\<close>

definition MarshalText :: "Timestamp \<Rightarrow> string \<times> error option" where
  "MarshalText t =
     (if \<not> Valid t then ([], None)
      else (FormatInt_10 (time_Unix_of (Time t)), None))"

text \<open>\<^verbatim>\<open>func (t *Timestamp) UnmarshalText(text []byte) error\<close>\<close>

definition UnmarshalText :: "Timestamp \<Rightarrow> string \<Rightarrow> Timestamp \<times> error option" where
  "UnmarshalText t txt =
     (if txt = [] \<or> txt = ''null'' then (t\<lparr>Valid := False\<rparr>, None)
      else case ParseInt txt 0 64 of
             Inl e \<Rightarrow> (t, Some (Wrapped ''null: couldn't unmarshal text: '' e))
           | Inr v \<Rightarrow> (t\<lparr>Time := time_Unix v 0, Valid := True\<rparr>, None))"

text \<open>\<^verbatim>\<open>func (t *Timestamp) SetValid(v time.Time)\<close>\<close>

definition SetValid :: "Timestamp \<Rightarrow> Time \<Rightarrow> Timestamp" where
  "SetValid t v = t\<lparr>Time := v, Valid := True\<rparr>"

text \<open>\<^verbatim>\<open>func (t Timestamp) Ptr() *time.Time\<close>: the pointer is to the receiver's own
  copy of the time, so it is modelled by the value it points to.\<close>

definition Ptr :: "Timestamp \<Rightarrow> Time option" where
  "Ptr t = (if \<not> Valid t then None else Some (Time t))"

text \<open>\<^verbatim>\<open>func (t Timestamp) IsZero() bool\<close>\<close>

definition IsZero :: "Timestamp \<Rightarrow> bool" where
  "IsZero t = (\<not> Valid t)"

text \<open>\<^verbatim>\<open>func (t Timestamp) Equal(other Timestamp) bool\<close>\<close>

definition Equal :: "Timestamp \<Rightarrow> Timestamp \<Rightarrow> bool" where
  "Equal t other = (Valid t = Valid other \<and> (\<not> Valid t \<or> time_Equal (Time t) (Time other)))"

text \<open>\<^verbatim>\<open>func (t Timestamp) ExactEqual(other Timestamp) bool\<close>; Go's \<^verbatim>\<open>==\<close> on
  \<^verbatim>\<open>time.Time\<close> compares the three fields.\<close>

definition ExactEqual :: "Timestamp \<Rightarrow> Timestamp \<Rightarrow> bool" where
  "ExactEqual t other = (Valid t = Valid other \<and> (\<not> Valid t \<or> Time t = Time other))"


section \<open>Properties\<close>

subsection \<open>Time values\<close>

lemma time_Unix_0: "time_Unix v 0 = unixTime v 0"
  by (simp add: time_Unix_def word_sless_alt word_sle_eq)

lemma setLoc_fields:
  "wall (setLoc t l) = wall (stripMono t)"
  "ext (setLoc t l) = ext (stripMono t)"
  "loc (setLoc t l) = (if l = utcLoc_addr then None else l)"
  by (simp_all add: setLoc_def)

lemma time_Equal_setLoc: "time_Equal (setLoc i l1) (setLoc i l2)"
  by (simp add: time_Equal_def time_sec_def time_nsec_def setLoc_fields)

lemma setLoc_differ:
  assumes "l1 \<noteq> l2" "l1 \<noteq> None" "l2 \<noteq> None"
  shows "setLoc i l1 \<noteq> setLoc i l2"
proof
  assume "setLoc i l1 = setLoc i l2"
  then have "loc (setLoc i l1) = loc (setLoc i l2)" by simp
  with assms show False by (simp add: setLoc_fields split: if_splits)
qed

subsection \<open>Decimal digits: what FormatInt writes, ParseInt reads back\<close>

text \<open>The ten digits, and the loop of \<^verbatim>\<open>formatBits\<close> as a recursion from the left.\<close>

lemma less_10_cases:
  "(k::nat) < 10 \<Longrightarrow> k = 0 \<or> k = 1 \<or> k = 2 \<or> k = 3 \<or> k = 4 \<or> k = 5 \<or> k = 6 \<or> k = 7 \<or> k = 8 \<or> k = 9"
  by arith

lemma byte_digits: "k < 10 \<Longrightarrow> byte (digits ! k) = 48 + k"
  using less_10_cases [of k] by (auto simp: digits_def byte_def)

lemma digit_val_digits: "k < 10 \<Longrightarrow> digit_val (digits ! k) = Some k"
  by (simp add: digit_val_def byte_digits) (simp add: byte_def)

lemma byte_isDigit: "isDigit c \<longleftrightarrow> 48 \<le> byte c \<and> byte c \<le> 57"
  by (simp add: isDigit_def) (simp add: byte_def)

lemma isDigit_digits: "k < 10 \<Longrightarrow> isDigit (digits ! k)"
  by (simp add: byte_isDigit byte_digits)

declare formatBits_loop.simps [simp del]

declare dec.simps [simp del]

lemma dec_rec:
  "10 \<le> u \<Longrightarrow> dec u = dec (u div 10) @ [digits ! (u mod 10)]"
  "u < 10 \<Longrightarrow> dec u = [digits ! u]"
  by (subst dec.simps, simp)+

text \<open>Both reads of the table are in range for a pair number \<open>k\<close> below 100, and
  the table holds there the two digits of \<open>k\<close>.\<close>

lemma smallsString_in_range: "k < 100 \<Longrightarrow> k * 2 + 1 < length smallsString"
  by (simp add: smallsString_def)


lemma smallsString_pairs:
  "\<forall>k\<in>set [0..<100].
     smallsString ! (k * 2) = digits ! (k div 10) \<and> smallsString ! (k * 2 + 1) = digits ! (k mod 10)"
  by code_simp

lemma smallsString_nth:
  assumes "k < 100"
  shows "smallsString ! (k * 2) = digits ! (k div 10)"
    and "smallsString ! Suc (k * 2) = digits ! (k mod 10)"
  using assms smallsString_pairs by auto

lemma small_eq_dec:
  assumes "i < 100"
  shows "small i = dec i"
proof (cases "i < 10")
  case True
  then have "take 1 (drop i digits) = [digits ! i]"
    by (simp add: take_Suc_conv_app_nth digits_def)
  with True show ?thesis by (simp add: small_def dec_rec(2))
next
  case False
  have len: "i * 2 + 1 < length smallsString"
    using assms by (simp add: smallsString_def)
  have "take 2 (drop (i * 2) smallsString) = [smallsString ! (i * 2), smallsString ! (i * 2 + 1)]"
    using len by (simp add: take_Suc_conv_app_nth numeral_2_eq_2)
  moreover have "dec i = [digits ! (i div 10), digits ! (i mod 10)]"
    using False assms by (simp add: dec_rec)
  ultimately show ?thesis
    using False by (simp add: small_def smallsString_nth [OF assms])
qed

lemma formatBits_loop_hundreds:
  assumes "100 \<le> us"
  shows "formatBits_loop us a
          = formatBits_loop (us div 100)
              (smallsString ! (us mod 100 * 2) # smallsString ! Suc (us mod 100 * 2) # a)"
  using assms by (subst formatBits_loop.simps) (simp add: Let_def)

lemma formatBits_loop_two_digits:
  assumes "\<not> 100 \<le> us" "10 \<le> us"
  shows "formatBits_loop us a = smallsString ! (us * 2) # smallsString ! Suc (us * 2) # a"
  using assms by (subst formatBits_loop.simps) (simp add: Let_def)

lemma formatBits_loop_one_digit:
  assumes "\<not> 10 \<le> us"
  shows "formatBits_loop us a = smallsString ! Suc (us * 2) # a"
  using assms by (subst formatBits_loop.simps) (simp add: Let_def)


lemma formatBits_loop_eq_dec: "formatBits_loop us a = dec us @ a"
proof (induction us arbitrary: a rule: less_induct)
  case (less us)
  show ?case
  proof (cases "100 \<le> us")
    case True
    then have lt: "us div 100 < us" by simp
    have k: "us mod 100 < 100" by simp
    have t: "10 \<le> us" "10 \<le> us div 10" using True by simp_all
    have m: "us mod 100 = 10 * (us div 10 mod 10) + us mod 10"
      using mod_mult2_eq [of us 10 10] by simp
    have d1: "us mod 100 div 10 = us div 10 mod 10"
      by (simp add: m)
    have d0: "us mod 100 mod 10 = us mod 10"
      by (simp add: m)
    have q: "us div 10 div 10 = us div 100"
      using div_mult2_eq [of us 10 10] by simp
    have "dec us = dec (us div 10) @ [digits ! (us mod 10)]"
      by (rule dec_rec(1) [OF t(1)])
    also have "dec (us div 10) = dec (us div 100) @ [digits ! (us div 10 mod 10)]"
      using dec_rec(1) [OF t(2)] by (simp only: q)
    finally have d: "dec us = dec (us div 100) @ [digits ! (us div 10 mod 10), digits ! (us mod 10)]"
      by simp
    have s: "smallsString ! (us mod 100 * 2) = digits ! (us div 10 mod 10)"
      "smallsString ! Suc (us mod 100 * 2) = digits ! (us mod 10)"
      using smallsString_nth [OF k] by (simp_all only: d1 d0)
    show ?thesis
      by (simp only: formatBits_loop_hundreds [OF True] less.IH [OF lt] s d append.simps append_assoc)
  next
    case False
    then have k: "us < 100" by simp
    show ?thesis
    proof (cases "10 \<le> us")
      case True
      have "us div 10 < 10" using k by simp
      then have "dec us = [digits ! (us div 10), digits ! (us mod 10)]"
        using dec_rec(1) [OF True] dec_rec(2) [of "us div 10"] by simp
      then show ?thesis
        by (simp only: formatBits_loop_two_digits [OF False True] smallsString_nth [OF k] append.simps)
    next
      case f: False
      then have m: "us mod 10 = us" and u: "us < 10" by simp_all
      show ?thesis
        using smallsString_nth(2) [OF k]
        by (simp only: formatBits_loop_one_digit [OF f] dec_rec(2) [OF u] m append.simps)
    qed
  qed
qed

text \<open>The loop of \<^verbatim>\<open>ParseUint\<close> reads the digits of \<open>u\<close> back as \<open>u\<close>, without
  overflow, for every \<open>u\<close> that fits 64 bits.\<close>

lemma ParseUint_loop_append:
  "ParseUint_loop b b0 cutoff maxVal n us (xs @ ys) =
     (case ParseUint_loop b b0 cutoff maxVal n us xs of
        Inl e \<Rightarrow> Inl e
      | Inr (n1, us1) \<Rightarrow> ParseUint_loop b b0 cutoff maxVal n1 us1 ys)"
  by (induction xs arbitrary: n us) (auto simp: Let_def split: option.splits)

lemma not_underscore_digits: "k < 10 \<Longrightarrow> digits ! k \<noteq> CHR ''_''"
  using byte_digits [of k] by (auto simp: byte_def)


lemma ParseUint_loop_digit_step:
  assumes "k < 10" "n * 10 + k < 2 ^ 64"
  shows "ParseUint_loop 10 b0 (maxUint64 div 10 + 1) (2 ^ 64 - 1) n us [digits ! k]
         = Inr (n * 10 + k, us)"
proof -
  have c: "\<not> maxUint64 div 10 + 1 \<le> n"
    using assms by (simp add: maxUint64_def)
  have f: "n * 10 < 2 ^ 64" using assms by linarith
  have g: "(n * 10) mod 2 ^ 64 = n * 10" using f by simp
  have h: "(n * 10 + k) mod 2 ^ 64 = n * 10 + k" using assms by simp
  have i: "\<not> (2::nat) ^ 64 - 1 < n * 10 + k" using assms by simp
  show ?thesis
    using c i assms(1)
    by (simp add: digit_val_digits [OF assms(1)] not_underscore_digits [OF assms(1)] Let_def g h)
qed

lemma ParseUint_loop_dec:
  "u < 2 ^ 64 \<Longrightarrow>
   ParseUint_loop 10 b0 (maxUint64 div 10 + 1) (2 ^ 64 - 1) 0 us (dec u) = Inr (u, us)"
proof (induction u rule: less_induct)
  case (less u)
  show ?case
  proof (cases "10 \<le> u")
    case False
    then have u: "u < 10" by simp
    show ?thesis
      using ParseUint_loop_digit_step [of u 0 b0 us] u less.prems by (simp add: dec_rec(2))
  next
    case True
    then have lt: "u div 10 < u" by simp
    have b: "u div 10 < 2 ^ 64" using less.prems lt by simp
    have m: "u mod 10 < 10" by simp
    have e: "u div 10 * 10 + u mod 10 = u" by simp
    show ?thesis
      using less.IH [OF lt b] ParseUint_loop_digit_step [of "u mod 10" "u div 10" b0 us] less.prems
      by (simp add: dec_rec(1) [OF True] ParseUint_loop_append e)
  qed
qed



text \<open>An \<^verbatim>\<open>int64\<close> read as signed and as unsigned.\<close>

lemma sint_int64:
  "sint (w::int64) = (if uint w < 2 ^ 63 then uint w else uint w - 2 ^ 64)"
proof -
  have a: "0 \<le> uint w" "uint w < 2 ^ 64"
    using uint_lt2p [of w] by simp_all
  have s: "sint w = (uint w + 2 ^ 63) mod 2 ^ 64 - 2 ^ 63"
    by (simp add: sint_uint signed_take_bit_eq_take_bit_shift take_bit_eq_mod)
  show ?thesis
  proof (cases "uint w < 2 ^ 63")
    case True
    then have "(uint w + 2 ^ 63) mod 2 ^ 64 = uint w + 2 ^ 63"
      using a by simp
    with s True show ?thesis by simp
  next
    case False
    have "(uint w + 2 ^ 63) mod 2 ^ 64 = (uint w + 2 ^ 63 - 2 ^ 64) mod 2 ^ 64"
      by (simp only: minus_mod_self2)
    also have "\<dots> = uint w + 2 ^ 63 - 2 ^ 64"
      using a False by simp
    finally show ?thesis using s False by simp
  qed
qed

lemma unat_eq_nat_sint: "\<not> (i::int64) <s 0 \<Longrightarrow> unat i = nat (sint i)"
proof -
  assume "\<not> i <s 0"
  then have "0 \<le> sint i" by (simp add: word_sless_alt)
  moreover have "uint i < 2 ^ 64" using uint_lt2p [of i] by simp
  ultimately have "sint i = uint i"
    by (simp add: sint_int64 split: if_splits)
  then show ?thesis by (simp only: unat_eq_nat_uint)
qed

lemma unat_minus_eq_nat_sint: "(i::int64) <s 0 \<Longrightarrow> unat (- i) = nat (- sint i)"
proof -
  assume "i <s 0"
  then have neg: "sint i < 0" by (simp add: word_sless_alt)
  have lt: "uint i < 2 ^ 64" using uint_lt2p [of i] by simp
  have "0 \<le> uint i" by simp
  with neg lt have s: "sint i = uint i - 2 ^ 64" and ge: "2 ^ 63 \<le> uint i"
    by (simp_all add: sint_int64 split: if_splits)
  have "uint (- i) = (- uint i) mod 2 ^ 64"
    by (simp add: uint_word_ariths)
  also have "\<dots> = (- uint i + 2 ^ 64) mod 2 ^ 64"
    by (simp only: mod_add_self2)
  also have "\<dots> = - uint i + 2 ^ 64"
    by (rule mod_pos_pos_trivial) (use lt ge in simp_all)
  finally have "uint (- i) = - sint i" using s by simp
  then show ?thesis by (simp only: unat_eq_nat_uint)
qed

lemma unat_nonneg_int64: "\<not> (i::int64) <s 0 \<Longrightarrow> unat i < 2 ^ 63"
proof -
  assume "\<not> i <s 0"
  then have "0 \<le> sint i" by (simp add: word_sless_alt)
  moreover have "uint i < 2 ^ 64" using uint_lt2p [of i] by simp
  ultimately have "uint i < 2 ^ 63"
    by (simp add: sint_int64 split: if_splits)
  then have "uint i < uint (2 ^ 63 :: int64)" by simp
  then have "i < 2 ^ 63" by (simp only: word_less_def)
  then have "unat i < unat (2 ^ 63 :: int64)" by (simp only: word_less_nat_alt)
  then show ?thesis by simp
qed

lemma unat_neg_int64: "(i::int64) <s 0 \<Longrightarrow> unat (- i) \<le> 2 ^ 63"
proof -
  assume "i <s 0"
  then have "sint i < 0" by (simp add: word_sless_alt)
  moreover have lt: "uint i < 2 ^ 64" using uint_lt2p [of i] by simp
  moreover have "0 \<le> uint i" by simp
  ultimately have ge: "2 ^ 63 \<le> uint i"
    by (simp add: sint_int64 split: if_splits)
  have "uint (- i) = (- uint i) mod 2 ^ 64"
    by (simp add: uint_word_ariths)
  also have "\<dots> = (- uint i + 2 ^ 64) mod 2 ^ 64"
    by (simp only: mod_add_self2)
  also have "\<dots> = - uint i + 2 ^ 64"
    by (rule mod_pos_pos_trivial) (use lt ge in simp_all)
  finally have "uint (- i) \<le> 2 ^ 63" using ge by simp
  then have "uint (- i) \<le> uint (2 ^ 63 :: int64)" by simp
  then have "- i \<le> 2 ^ 63" by (simp only: word_le_def)
  then have "unat (- i) \<le> unat (2 ^ 63 :: int64)" by (simp only: word_le_nat_alt)
  then show ?thesis by simp
qed


text \<open>The first digit is \<open>0\<close> only for zero, so base 0 reads decimal text as decimal.\<close>

lemma dec_0: "dec 0 = ''0''"
  by (simp add: dec_rec(2) digits_def)

lemma dec_hd: "\<exists>k rest. dec u = digits ! k # rest \<and> k < 10 \<and> (k = 0 \<longrightarrow> u = 0)"
proof (induction u rule: less_induct)
  case (less u)
  show ?case
  proof (cases "10 \<le> u")
    case False
    then show ?thesis by (auto simp: dec_rec(2))
  next
    case True
    then have lt: "u div 10 < u" and nz: "u div 10 \<noteq> 0" by simp_all
    from less.IH [OF lt] obtain k rest where
      "dec (u div 10) = digits ! k # rest" "k < 10" "k = 0 \<longrightarrow> u div 10 = 0" by blast
    with nz show ?thesis by (auto simp: dec_rec(1) [OF True])
  qed
qed

lemma byte_neq: "byte c \<noteq> byte d \<Longrightarrow> c \<noteq> d"
  by auto

lemma digits_neq_0: "k < 10 \<Longrightarrow> k \<noteq> 0 \<Longrightarrow> digits ! k \<noteq> CHR ''0''"
  by (rule byte_neq) (simp add: byte_digits, simp add: byte_def)

lemma digits_not_sign: "k < 10 \<Longrightarrow> digits ! k \<noteq> CHR ''-'' \<and> digits ! k \<noteq> CHR ''+''"
  using byte_digits [of k] by (auto simp: byte_def)

lemma ParseUint_dec:
  assumes "u < 2 ^ 64" "b = 0 \<or> b = 10"
  shows "ParseUint (dec u) b 64 = (u, None)"
proof -
  obtain k rest where d: "dec u = digits ! k # rest" "k < 10" "k = 0 \<longrightarrow> u = 0"
    using dec_hd by blast
  have loop: "ParseUint_loop 10 b0 (maxUint64 div 10 + 1) (2 ^ 64 - 1) 0 False (dec u) = Inr (u, False)" for b0
    using ParseUint_loop_dec [OF assms(1)] .
  show ?thesis
  proof (cases "b = 10")
    case True
    then show ?thesis
      using loop [of False] by (simp add: ParseUint_def d(1) [symmetric]) (simp add: d(1))
  next
    case False
    with assms have b: "b = 0" by simp
    show ?thesis
    proof (cases "u = 0")
      case True
      then show ?thesis
        by (simp add: b dec_0 ParseUint_def maxUint64_def IntSize_def)
    next
      case False
      with d have "k \<noteq> 0" by auto
      then have "hd (dec u) \<noteq> CHR ''0''"
        using d digits_neq_0 by simp
      then show ?thesis
        using loop [of True] by (simp add: ParseUint_def b d(1) [symmetric]) (simp add: d(1))
    qed
  qed
qed

lemma FormatInt_10_neg: "i <s 0 \<Longrightarrow> FormatInt_10 i = CHR ''-'' # dec (unat (- i))"
  by (simp add: FormatInt_10_def formatBits_def formatBits_loop_eq_dec word_sless_alt)

lemma FormatInt_10_nonneg:
  assumes "\<not> i <s 0"
  shows "FormatInt_10 i = dec (unat i)"
proof (cases "sint i < nSmalls")
  case True
  have nn: "0 \<le> sint i" using assms by (simp add: word_sless_alt)
  have "nat (sint i) < 100" using True nn by (simp add: nSmalls_def)
  then have "small (nat (sint i)) = dec (nat (sint i))" by (rule small_eq_dec)
  then show ?thesis
    using True nn by (simp add: FormatInt_10_def unat_eq_nat_sint [OF assms])
next
  case False
  then show ?thesis
    using assms by (simp add: FormatInt_10_def formatBits_def formatBits_loop_eq_dec)
qed

lemma ParseInt_FormatInt_10:
  assumes "b = 0 \<or> b = 10"
  shows "ParseInt (FormatInt_10 i) b 64 = Inr i"
proof (cases "i <s 0")
  case True
  have u: "unat (- i) < 2 ^ 64" using unat_neg_int64 [OF True] by simp
  have c: "\<not> 2 ^ 63 < unat (- i)" using unat_neg_int64 [OF True] by simp
  show ?thesis
    using c by (simp add: FormatInt_10_neg [OF True] ParseInt_def ParseUint_dec [OF u assms] is_ErrRange_def)
next
  case False
  have u: "unat i < 2 ^ 64" using unat_nonneg_int64 [OF False] by simp
  have c: "\<not> 2 ^ 63 \<le> unat i" using unat_nonneg_int64 [OF False] by simp
  obtain k rest where d: "dec (unat i) = digits ! k # rest" "k < 10"
    using dec_hd by blast
  have h: "hd (dec (unat i)) \<noteq> CHR ''-''" "hd (dec (unat i)) \<noteq> CHR ''+''" "dec (unat i) \<noteq> []"
    using d digits_not_sign by simp_all
  show ?thesis
    using c h by (simp add: FormatInt_10_nonneg [OF False] ParseInt_def ParseUint_dec [OF u assms] is_ErrRange_def)
qed


text \<open>The JSON scanner accepts decimal text, and the decoder hands all of it to
  \<^verbatim>\<open>ParseInt\<close>.\<close>

lemma byte_Char:
  "byte (Char b0 b1 b2 b3 b4 b5 b6 b7) = of_char (Char b0 b1 b2 b3 b4 b5 b6 b7)"
  by (simp add: byte_def)

lemma char_eq_iff_byte:
  "c = Char b0 b1 b2 b3 b4 b5 b6 b7 \<longleftrightarrow> byte c = byte (Char b0 b1 b2 b3 b4 b5 b6 b7)"
  by (simp only: byte_def of_char_eq_iff)

lemmas byte_simps = char_eq_iff_byte byte_Char byte_isDigit

lemma dec_all_digits: "c \<in> set (dec u) \<Longrightarrow> isDigit c"
proof (induction u rule: less_induct)
  case (less u)
  show ?case
  proof (cases "10 \<le> u")
    case False
    with less.prems show ?thesis by (auto simp: dec_rec(2) isDigit_digits)
  next
    case True
    then have lt: "u div 10 < u" by simp
    show ?thesis
      using less.prems less.IH [OF lt] by (auto simp: dec_rec(1) [OF True] isDigit_digits)
  qed
qed

lemma stateBeginValue_digit:
  "isDigit c \<Longrightarrow> c \<noteq> CHR ''0'' \<Longrightarrow> stateBeginValue s c = (scanBeginLiteral, s\<lparr>step := st_1\<rparr>)"
  by (simp add: stateBeginValue_def isSpace_def byte_simps)

lemma stateBeginValue_zero:
  "stateBeginValue s (CHR ''0'') = (scanBeginLiteral, s\<lparr>step := st_0\<rparr>)"
  by (simp add: stateBeginValue_def isSpace_def byte_simps)

lemma stateBeginValue_minus:
  "stateBeginValue s (CHR ''-'') = (scanBeginLiteral, s\<lparr>step := st_Neg\<rparr>)"
  by (simp add: stateBeginValue_def isSpace_def byte_simps)

lemma stateNeg_digit:
  "isDigit c \<Longrightarrow> c \<noteq> CHR ''0'' \<Longrightarrow> stateNeg s c = (scanContinue, s\<lparr>step := st_1\<rparr>)"
  by (simp add: stateNeg_def byte_simps)

lemma state1_digit: "isDigit c \<Longrightarrow> state1 s c = (scanContinue, s\<lparr>step := st_1\<rparr>)"
  by (simp add: state1_def)

lemma checkValid_loop_digits:
  "step s = st_1 \<Longrightarrow> \<forall>c\<in>set ds. isDigit c \<Longrightarrow>
   \<exists>s'. checkValid_loop s ds = Inr s' \<and> step s' = st_1 \<and> parseState s' = parseState s
        \<and> err s' = err s \<and> endTop s' = endTop s"
proof (induction ds arbitrary: s)
  case Nil
  then show ?case by simp
next
  case (Cons c ds)
  let ?s1 = "(s\<lparr>bytes := bytes s + 1\<rparr>)\<lparr>step := st_1\<rparr>"
  have st: "scan_step (s\<lparr>bytes := bytes s + 1\<rparr>) c = (scanContinue, ?s1)"
    using Cons.prems by (simp add: scan_step_def state1_digit)
  have "\<exists>s'. checkValid_loop ?s1 ds = Inr s' \<and> step s' = st_1 \<and> parseState s' = parseState ?s1
        \<and> err s' = err ?s1 \<and> endTop s' = endTop ?s1"
    using Cons.prems by (intro Cons.IH) simp_all
  then show ?case using st by simp
qed

lemma scanner_eof_number:
  assumes "step s = st_1 \<or> step s = st_0" "parseState s = []" "err s = None" "\<not> endTop s"
  shows "fst (scanner_eof s) = scanEnd"
  using assms
  by (auto simp: scanner_eof_def scan_step_def state1_def state0_def stateEndValue_def
      stateEndTop_def isSpace_def byte_simps)


lemma checkValid_digits:
  assumes "isDigit c" "c \<noteq> CHR ''0''" "\<forall>x\<in>set ds. isDigit x"
  shows "checkValid (c # ds) = None" "checkValid (CHR ''-'' # c # ds) = None"
proof -
  let ?s0 = "reset scanner_zero"
  let ?a = "(?s0\<lparr>bytes := bytes ?s0 + 1\<rparr>)\<lparr>step := st_1\<rparr>"
  let ?n = "(?s0\<lparr>bytes := bytes ?s0 + 1\<rparr>)\<lparr>step := st_Neg\<rparr>"
  let ?b = "(?n\<lparr>bytes := bytes ?n + 1\<rparr>)\<lparr>step := st_1\<rparr>"
  have tail: "\<exists>s'. checkValid_loop s ds = Inr s' \<and> fst (scanner_eof s') = scanEnd"
    if st: "step s = st_1" and rest: "parseState s = []" "err s = None" "\<not> endTop s" for s
  proof -
    obtain s' where s': "checkValid_loop s ds = Inr s'" "step s' = st_1"
      "parseState s' = parseState s" "err s' = err s" "endTop s' = endTop s"
      using checkValid_loop_digits [OF st assms(3)] by blast
    with rest scanner_eof_number [of s'] show ?thesis by simp
  qed
  have a: "checkValid_loop ?s0 (c # ds) = checkValid_loop ?a ds"
    using assms(1,2) by (simp add: scan_step_def reset_def stateBeginValue_digit)
  obtain sa where "checkValid_loop ?a ds = Inr sa" "fst (scanner_eof sa) = scanEnd"
    using tail [of ?a] by (auto simp: reset_def scanner_zero_def)
  with a show "checkValid (c # ds) = None"
    by (simp add: checkValid_def)
  have b: "checkValid_loop ?s0 (CHR ''-'' # c # ds) = checkValid_loop ?b ds"
    using assms(1,2) by (simp add: scan_step_def reset_def stateBeginValue_minus stateNeg_digit)
  obtain sb where "checkValid_loop ?b ds = Inr sb" "fst (scanner_eof sb) = scanEnd"
    using tail [of ?b] by (auto simp: reset_def scanner_zero_def)
  with b show "checkValid (CHR ''-'' # c # ds) = None"
    by (simp add: checkValid_def)
qed

lemma checkValid_zero: "checkValid ''0'' = None"
  by (simp add: checkValid_def reset_def scanner_zero_def scan_step_def stateBeginValue_zero
      scanner_eof_def state0_def stateEndValue_def stateEndTop_def isSpace_def byte_simps)

lemma takeWhile_digits: "\<forall>x\<in>set ds. isDigit x \<Longrightarrow> takeWhile isNumberByte ds = ds"
  by (induction ds) (simp_all add: isNumberByte_def)

lemma decode_value_number:
  assumes "isDigit c \<or> c = CHR ''-''" "\<forall>x\<in>set ds. isDigit x"
  shows "decode_value (c # ds) v =
     (case ParseInt (c # ds) 10 64 of
        Inl _ \<Rightarrow> Inl (UnmarshalTypeError (''number '' @ c # ds))
      | Inr n \<Rightarrow> Inr n)"
proof -
  have op: "fst (scan_step (reset scanner_zero) c) = scanBeginLiteral"
    using assms(1)
    by (cases "c = CHR ''0''")
       (auto simp: scan_step_def reset_def stateBeginValue_digit stateBeginValue_zero stateBeginValue_minus)
  have r: "rescanLiteral (c # ds) = c # ds"
    using assms by (auto simp: rescanLiteral_def takeWhile_digits byte_simps)
  have l: "literalStore (c # ds) v =
     (case ParseInt (c # ds) 10 64 of
        Inl _ \<Rightarrow> Inl (UnmarshalTypeError (''number '' @ c # ds))
      | Inr n \<Rightarrow> Inr n)"
    using assms(1) by (auto simp: literalStore_def byte_simps)
  show ?thesis
    using op by (simp add: decode_value_def r l)
qed


lemma json_Unmarshal_FormatInt_10: "json_Unmarshal (FormatInt_10 i) = Inr i"
proof (cases "i <s 0")
  case True
  then have "i \<noteq> 0" by auto
  then have nz: "unat (- i) \<noteq> 0" by (simp add: unat_eq_0)
  obtain k rest where d: "dec (unat (- i)) = digits ! k # rest" "k < 10" "k = 0 \<longrightarrow> unat (- i) = 0"
    using dec_hd by blast
  have all: "\<forall>x\<in>set (dec (unat (- i))). isDigit x" using dec_all_digits by blast
  have k: "isDigit (digits ! k)" "digits ! k \<noteq> CHR ''0''" "\<forall>x\<in>set rest. isDigit x"
    using d nz all digits_neq_0 [of k] by (auto simp: isDigit_digits)
  have v: "checkValid (FormatInt_10 i) = None"
    using checkValid_digits(2) [OF k] by (simp add: FormatInt_10_neg [OF True] d(1))
  have "decode_value (FormatInt_10 i) 0 = Inr i"
    using decode_value_number [of "CHR ''-''" "dec (unat (- i))" 0] all
      ParseInt_FormatInt_10 [of 10 i]
    by (simp add: FormatInt_10_neg [OF True])
  with v show ?thesis by (simp add: json_Unmarshal_def)
next
  case False
  obtain k rest where d: "dec (unat i) = digits ! k # rest" "k < 10" "k = 0 \<longrightarrow> unat i = 0"
    using dec_hd by blast
  have all: "\<forall>x\<in>set (dec (unat i)). isDigit x" using dec_all_digits by blast
  have v: "checkValid (FormatInt_10 i) = None"
  proof (cases "unat i = 0")
    case True
    then show ?thesis by (simp add: FormatInt_10_nonneg [OF False] dec_0 checkValid_zero)
  next
    case nz: False
    have k: "isDigit (digits ! k)" "digits ! k \<noteq> CHR ''0''" "\<forall>x\<in>set rest. isDigit x"
      using d nz all digits_neq_0 [of k] by (auto simp: isDigit_digits)
    show ?thesis
      using checkValid_digits(1) [OF k] by (simp add: FormatInt_10_nonneg [OF False] d(1))
  qed
  have "decode_value (digits ! k # rest) 0 = Inr i"
    using decode_value_number [of "digits ! k" rest 0] all d isDigit_digits [of k]
      ParseInt_FormatInt_10 [of 10 i]
    by (simp add: FormatInt_10_nonneg [OF False])
  with v show ?thesis by (simp add: json_Unmarshal_def FormatInt_10_nonneg [OF False] d(1))
qed

lemma FormatInt_10_hd:
  "\<exists>c rest. FormatInt_10 i = c # rest \<and> (isDigit c \<or> c = CHR ''-'')"
proof (cases "i <s 0")
  case True
  then show ?thesis by (simp add: FormatInt_10_neg)
next
  case False
  obtain k rest where "dec (unat i) = digits ! k # rest" "k < 10"
    using dec_hd by blast
  then show ?thesis by (simp add: FormatInt_10_nonneg [OF False] isDigit_digits)
qed

lemma FormatInt_10_not_null: "FormatInt_10 i \<noteq> ''null''" "FormatInt_10 i \<noteq> []"
  using FormatInt_10_hd [of i] by (auto simp: byte_simps)

lemma time_Equal_Unix_Unix_of:
  "time_nsec i = 0 \<Longrightarrow> time_Equal (time_Unix (time_Unix_of i) 0) i"
  by (simp add: time_Unix_0 unixTime_def time_Unix_of_def internalToUnix_def time_Equal_def
      time_sec_def time_nsec_def)

lemma time_Unix_of_Unix: "time_Unix_of (time_Unix v 0) = v"
  by (simp add: time_Unix_0 unixTime_def time_Unix_of_def internalToUnix_def time_sec_def)


subsection \<open>Round trips\<close>

text \<open>
  C1. Take an instant \<open>i\<close> truncated to whole seconds, that is, one whose
  nanosecond part \<^verbatim>\<open>i.nsec()\<close> is zero, and any receiver \<open>r\<close>. \<open>MarshalJSON\<close> of
  \<open>TimestampFrom i\<close> succeeds, \<open>UnmarshalJSON\<close> of those bytes into \<open>r\<close> succeeds,
  and the result is \<open>Equal\<close> to \<open>TimestampFrom i\<close>. The same holds for
  \<open>MarshalText\<close> followed by \<open>UnmarshalText\<close>. Nothing is assumed about the
  range of \<open>i\<close>, its location or a monotonic clock reading.
\<close>

theorem round_trip_whole_seconds:
  "time_nsec i = 0 \<Longrightarrow>
     snd (MarshalJSON (TimestampFrom i)) = None
   \<and> snd (UnmarshalJSON r (fst (MarshalJSON (TimestampFrom i)))) = None
   \<and> Equal (fst (UnmarshalJSON r (fst (MarshalJSON (TimestampFrom i))))) (TimestampFrom i)
   \<and> snd (MarshalText (TimestampFrom i)) = None
   \<and> snd (UnmarshalText r (fst (MarshalText (TimestampFrom i)))) = None
   \<and> Equal (fst (UnmarshalText r (fst (MarshalText (TimestampFrom i))))) (TimestampFrom i)"
  by (simp add: MarshalJSON_def MarshalText_def UnmarshalJSON_def UnmarshalText_def
      TimestampFrom_def NewTimestamp_def nullBytes_def FormatInt_10_not_null
      json_Unmarshal_FormatInt_10 ParseInt_FormatInt_10 Equal_def time_Equal_Unix_Unix_of)

theorem round_trip_whole_seconds_witness:
  "time_nsec (time_Unix 1356124881 0) = 0
   \<and> fst (MarshalJSON (TimestampFrom (time_Unix 1356124881 0))) = ''1356124881''
   \<and> Equal (fst (UnmarshalJSON (NewTimestamp Time_zero False) ''1356124881''))
            (TimestampFrom (time_Unix 1356124881 0))
   \<and> Equal (fst (UnmarshalText (NewTimestamp Time_zero False) ''1356124881''))
            (TimestampFrom (time_Unix 1356124881 0))"
proof -
  have n: "time_nsec (time_Unix 1356124881 0) = 0"
    by (simp add: time_Unix_0 unixTime_def time_nsec_def)
  have m: "fst (MarshalJSON (TimestampFrom (time_Unix 1356124881 0))) = ''1356124881''"
    "fst (MarshalText (TimestampFrom (time_Unix 1356124881 0))) = ''1356124881''"
    by (simp_all add: MarshalJSON_def MarshalText_def TimestampFrom_def NewTimestamp_def
        time_Unix_of_Unix FormatInt_10_def nSmalls_def formatBits_def word_sless_alt
        formatBits_loop.simps smallsString_def)
  show ?thesis
    using round_trip_whole_seconds [OF n, of "NewTimestamp Time_zero False"] n m by simp
qed

subsection \<open>Equality and the null check\<close>

text \<open>
  C6. Take one instant \<open>i\<close> and express it in two different locations \<open>l1\<close> and
  \<open>l2\<close> with \<^verbatim>\<open>Time.In\<close> (two different offsets need two different locations).
  The two valid Timestamps are \<open>Equal\<close> and not \<open>ExactEqual\<close>. Two invalid
  Timestamps are \<open>Equal\<close> and \<open>ExactEqual\<close> whatever their \<open>Time\<close> fields hold. A
  valid and an invalid Timestamp are neither.
\<close>

theorem Equal_versus_ExactEqual:
  "(l1 \<noteq> l2 \<and> time_In i l1 = Some a \<and> time_In i l2 = Some b
      \<longrightarrow> Equal (TimestampFrom a) (TimestampFrom b)
          \<and> \<not> ExactEqual (TimestampFrom a) (TimestampFrom b))
   \<and> Equal (NewTimestamp x False) (NewTimestamp y False)
   \<and> ExactEqual (NewTimestamp x False) (NewTimestamp y False)
   \<and> (Valid t \<noteq> Valid u \<longrightarrow> \<not> Equal t u \<and> \<not> ExactEqual t u)"
proof (intro conjI impI)
  assume h: "l1 \<noteq> l2 \<and> time_In i l1 = Some a \<and> time_In i l2 = Some b"
  then have ab: "a = setLoc i l1" "b = setLoc i l2" and nn: "l1 \<noteq> None" "l2 \<noteq> None"
    by (auto simp: time_In_def split: if_splits)
  show "Equal (TimestampFrom a) (TimestampFrom b)"
    by (simp add: Equal_def TimestampFrom_def NewTimestamp_def ab time_Equal_setLoc)
  show "\<not> ExactEqual (TimestampFrom a) (TimestampFrom b)"
    using h nn setLoc_differ [of l1 l2 i]
    by (simp add: ExactEqual_def TimestampFrom_def NewTimestamp_def ab)
next
  show "Equal (NewTimestamp x False) (NewTimestamp y False)"
    by (simp add: Equal_def NewTimestamp_def)
  show "ExactEqual (NewTimestamp x False) (NewTimestamp y False)"
    by (simp add: ExactEqual_def NewTimestamp_def)
next
  assume "Valid t \<noteq> Valid u"
  then show "\<not> Equal t u" by (simp add: Equal_def)
next
  assume "Valid t \<noteq> Valid u"
  then show "\<not> ExactEqual t u" by (simp add: ExactEqual_def)
qed

text \<open>The instant 7200 seconds after the epoch, in a zone at address 5 and in UTC;
  and the zero time once valid, once not.\<close>

theorem Equal_versus_ExactEqual_witness:
  "Some 5 \<noteq> utcLoc_addr
   \<and> time_In (time_Unix 7200 0) (Some 5) = Some (setLoc (time_Unix 7200 0) (Some 5))
   \<and> time_In (time_Unix 7200 0) utcLoc_addr = Some (setLoc (time_Unix 7200 0) utcLoc_addr)
   \<and> Equal (TimestampFrom (setLoc (time_Unix 7200 0) (Some 5)))
            (TimestampFrom (setLoc (time_Unix 7200 0) utcLoc_addr))
   \<and> \<not> ExactEqual (TimestampFrom (setLoc (time_Unix 7200 0) (Some 5)))
                  (TimestampFrom (setLoc (time_Unix 7200 0) utcLoc_addr))
   \<and> Valid (NewTimestamp Time_zero True) \<noteq> Valid (NewTimestamp Time_zero False)
   \<and> \<not> Equal (NewTimestamp Time_zero True) (NewTimestamp Time_zero False)
   \<and> \<not> ExactEqual (NewTimestamp Time_zero True) (NewTimestamp Time_zero False)"
  using Equal_versus_ExactEqual [of "Some 5" utcLoc_addr "time_Unix 7200 0"
      "setLoc (time_Unix 7200 0) (Some 5)" "setLoc (time_Unix 7200 0) utcLoc_addr"
      Time_zero Time_zero "NewTimestamp Time_zero True" "NewTimestamp Time_zero False"]
  by (simp add: time_In_def utcLoc_addr_def NewTimestamp_def)

text \<open>
  C7. \<open>IsZero\<close> is true exactly when \<open>Valid\<close> is false: the valid Timestamp made
  from the zero time is not zero, the Timestamp made from a nil pointer is.
\<close>

theorem IsZero_is_the_null_check:
  "IsZero t = (\<not> Valid t)
   \<and> IsZero (TimestampFrom Time_zero) = False
   \<and> IsZero (TimestampFromPtr None) = True"
  by (simp add: IsZero_def TimestampFrom_def TimestampFromPtr_def NewTimestamp_def)

theorem IsZero_is_the_null_check_witness:
  "IsZero (TimestampFrom (time_Unix 1356124881 0)) = False
   \<and> IsZero (NewTimestamp (time_Unix 1356124881 0) False) = True"
  using IsZero_is_the_null_check [of "TimestampFrom (time_Unix 1356124881 0)"]
    IsZero_is_the_null_check [of "NewTimestamp (time_Unix 1356124881 0) False"]
  by (simp add: TimestampFrom_def NewTimestamp_def)

subsection \<open>Decoding the null markers\<close>

lemmas scanner_defs =
  checkValid_def reset_def scanner_zero_def scan_step_def scanner_eof_def
  stateBeginValue_def stateBeginValueOrEmpty_def stateBeginString_def
  stateBeginStringOrEmpty_def stateEndValue_def stateEndTop_def stateInString_def
  stateInStringEsc_def stateInStringEscU_any_def stateNeg_def state0_def state1_def
  stateDot_def stateDot0_def stateE_def stateESign_def stateE0_def stateLit_def
  pushParseState_def popParseState_def scanner_error_def maxNestingDepth_def
  isSpace_def isDigit_def isHex_def byte_def expecting_def

lemmas decoder_defs =
  json_Unmarshal_def decode_value_def rescanLiteral_def literalStore_def isNumberByte_def

lemmas strconv_defs =
  ParseInt_def ParseUint_def digit_val_def byte_def lower_def IntSize_def maxUint64_def
  is_ErrRange_def underscoreOK_def is_base_prefix_def

lemma json_Unmarshal_empty_object:
  "json_Unmarshal ''{}'' = Inl (UnmarshalTypeError ''object'')"
  by (simp add: scanner_defs decoder_defs)

lemma ParseInt_hello_world:
  "ParseInt ''hello world'' 0 64 = Inl (NumError ''ParseInt'' ''hello world'' ErrSyntax)"
  by (simp add: strconv_defs)

lemma json_Unmarshal_fails_not_null: "json_Unmarshal data = Inl e \<Longrightarrow> data \<noteq> nullBytes"
  by (auto simp: nullBytes_def scanner_defs decoder_defs)

text \<open>
  C3, as amended. On exactly \<^verbatim>\<open>null\<close>, \<open>UnmarshalJSON\<close> succeeds and sets \<open>Valid\<close>
  to false; so does \<open>UnmarshalText\<close> on the empty input and on \<^verbatim>\<open>null\<close>. The
  \<open>Time\<close> field is not written: it holds afterwards what it held before.
\<close>

theorem Unmarshal_null_keeps_Time:
  "UnmarshalJSON t ''null'' = (t\<lparr>Valid := False\<rparr>, None)
   \<and> UnmarshalText t [] = (t\<lparr>Valid := False\<rparr>, None)
   \<and> UnmarshalText t ''null'' = (t\<lparr>Valid := False\<rparr>, None)"
  by (simp add: UnmarshalJSON_def UnmarshalText_def nullBytes_def)

theorem Unmarshal_null_keeps_Time_witness:
  "UnmarshalJSON (TimestampFrom (time_Unix 1356124881 0)) ''null''
     = (NewTimestamp (time_Unix 1356124881 0) False, None)
   \<and> UnmarshalText (TimestampFrom (time_Unix 1356124881 0)) []
     = (NewTimestamp (time_Unix 1356124881 0) False, None)"
  using Unmarshal_null_keeps_Time [of "TimestampFrom (time_Unix 1356124881 0)"]
  by (simp add: TimestampFrom_def NewTimestamp_def)

text \<open>
  C3 as the specification states it fails: a receiver that holds the instant
  1356124881 still holds it, not the zero instant, after each of the three calls.
\<close>

theorem Unmarshal_null_zero_instant_counterexample:
  "snd (UnmarshalJSON (TimestampFrom (time_Unix 1356124881 0)) ''null'') = None
   \<and> Time (fst (UnmarshalJSON (TimestampFrom (time_Unix 1356124881 0)) ''null'')) \<noteq> Time_zero
   \<and> Time (fst (UnmarshalText (TimestampFrom (time_Unix 1356124881 0)) [])) \<noteq> Time_zero
   \<and> Time (fst (UnmarshalText (TimestampFrom (time_Unix 1356124881 0)) ''null'')) \<noteq> Time_zero"
  by (simp add: UnmarshalJSON_def UnmarshalText_def nullBytes_def TimestampFrom_def
      NewTimestamp_def time_Unix_0 unixTime_def Time_zero_def Local_def)

text \<open>
  C5. An invalid Timestamp marshals to exactly \<^verbatim>\<open>null\<close> as JSON and to the empty
  sequence as text; no Timestamp, valid or not, marshals to the text \<^verbatim>\<open>null\<close>.
  \<open>UnmarshalJSON\<close> of \<^verbatim>\<open>null\<close>, and \<open>UnmarshalText\<close> of the empty input and of
  \<^verbatim>\<open>null\<close>, succeed and leave the receiver invalid.
\<close>

theorem null_encoding_and_decoding:
  "(\<not> Valid t \<longrightarrow> MarshalJSON t = (''null'', None) \<and> MarshalText t = ([], None))
   \<and> fst (MarshalText t) \<noteq> ''null''
   \<and> snd (UnmarshalJSON r ''null'') = None \<and> \<not> Valid (fst (UnmarshalJSON r ''null''))
   \<and> snd (UnmarshalText r []) = None \<and> \<not> Valid (fst (UnmarshalText r []))
   \<and> snd (UnmarshalText r ''null'') = None \<and> \<not> Valid (fst (UnmarshalText r ''null''))"
  by (simp add: MarshalJSON_def MarshalText_def UnmarshalJSON_def UnmarshalText_def
      nullBytes_def FormatInt_10_not_null)

theorem null_encoding_and_decoding_witness:
  "\<not> Valid (NewTimestamp (time_Unix 1356124881 0) False)
   \<and> MarshalJSON (NewTimestamp (time_Unix 1356124881 0) False) = (''null'', None)
   \<and> MarshalText (NewTimestamp (time_Unix 1356124881 0) False) = ([], None)
   \<and> \<not> Valid (fst (UnmarshalJSON (TimestampFrom (time_Unix 1356124881 0)) ''null''))
   \<and> \<not> Valid (fst (UnmarshalText (TimestampFrom (time_Unix 1356124881 0)) ''null''))"
  using null_encoding_and_decoding [of "NewTimestamp (time_Unix 1356124881 0) False"
      "TimestampFrom (time_Unix 1356124881 0)"]
  by (simp add: NewTimestamp_def)

subsection \<open>Failed decoding\<close>

text \<open>
  C9. When \<open>UnmarshalJSON\<close> returns an error, the receiver after the call is the
  receiver before it, \<open>Time\<close> and \<open>Valid\<close> both; the same for \<open>UnmarshalText\<close>. A
  valid Timestamp is still valid, with its instant, after a failed decode.
\<close>

theorem failed_decode_leaves_receiver:
  "(snd (UnmarshalJSON t data) \<noteq> None \<longrightarrow>
      Time (fst (UnmarshalJSON t data)) = Time t \<and> Valid (fst (UnmarshalJSON t data)) = Valid t)
   \<and> (snd (UnmarshalText t txt) \<noteq> None \<longrightarrow>
      Time (fst (UnmarshalText t txt)) = Time t \<and> Valid (fst (UnmarshalText t txt)) = Valid t)"
  by (auto simp: UnmarshalJSON_def UnmarshalText_def split: sum.splits if_splits)

theorem failed_decode_leaves_receiver_witness:
  "snd (UnmarshalJSON (TimestampFrom (time_Unix 1356124881 0)) ''{}'') \<noteq> None
   \<and> Time (fst (UnmarshalJSON (TimestampFrom (time_Unix 1356124881 0)) ''{}'')) = time_Unix 1356124881 0
   \<and> Valid (fst (UnmarshalJSON (TimestampFrom (time_Unix 1356124881 0)) ''{}''))
   \<and> snd (UnmarshalText (TimestampFrom (time_Unix 1356124881 0)) ''hello world'') \<noteq> None
   \<and> Time (fst (UnmarshalText (TimestampFrom (time_Unix 1356124881 0)) ''hello world'')) = time_Unix 1356124881 0
   \<and> Valid (fst (UnmarshalText (TimestampFrom (time_Unix 1356124881 0)) ''hello world''))"
proof -
  have j: "snd (UnmarshalJSON (TimestampFrom (time_Unix 1356124881 0)) ''{}'') \<noteq> None"
    by (simp add: UnmarshalJSON_def nullBytes_def json_Unmarshal_empty_object)
  have x: "snd (UnmarshalText (TimestampFrom (time_Unix 1356124881 0)) ''hello world'') \<noteq> None"
    by (simp add: UnmarshalText_def ParseInt_hello_world)
  show ?thesis
    using j x failed_decode_leaves_receiver [of "TimestampFrom (time_Unix 1356124881 0)" "''{}''"
        "''hello world''"]
    by (simp add: TimestampFrom_def NewTimestamp_def)
qed

text \<open>
  C2, as amended. When \<^verbatim>\<open>json.Unmarshal\<close> fails on the input with the error \<open>e\<close>,
  \<open>UnmarshalJSON\<close> returns an error that wraps \<open>e\<close> and leaves the receiver as it
  was. When \<^verbatim>\<open>strconv.ParseInt\<close> fails with \<open>e\<close> on an input that is neither empty
  nor \<^verbatim>\<open>null\<close>, \<open>UnmarshalText\<close> returns an error that wraps \<open>e\<close> and leaves the
  receiver as it was. So the receiver is invalid afterwards exactly when it was
  invalid before. The instance below runs an object, an array, a string and a
  malformed token on a zero-valued receiver.
\<close>

theorem failed_decode_wraps_error:
  "(json_Unmarshal data = Inl e \<longrightarrow>
      UnmarshalJSON t data = (t, Some (Wrapped ''null: couldn't unmarshal JSON: '' e)))
   \<and> (txt \<noteq> [] \<and> txt \<noteq> ''null'' \<and> ParseInt txt 0 64 = Inl e' \<longrightarrow>
      UnmarshalText t txt = (t, Some (Wrapped ''null: couldn't unmarshal text: '' e')))"
  using json_Unmarshal_fails_not_null [of data e]
  by (auto simp: UnmarshalJSON_def UnmarshalText_def)

lemma json_Unmarshal_object:
  \<open>json_Unmarshal ''{"Time":1356124881,"Valid":true}'' = Inl (UnmarshalTypeError ''object'')\<close>
  by (simp add: scanner_defs decoder_defs)

lemma json_Unmarshal_array:
  "json_Unmarshal ''[1356124881]'' = Inl (UnmarshalTypeError ''array'')"
  by (simp add: scanner_defs decoder_defs)

lemma json_Unmarshal_string:
  \<open>json_Unmarshal ''"1356124881"'' = Inl (UnmarshalTypeError ''string'')\<close>
  by (simp add: scanner_defs decoder_defs)

lemma json_Unmarshal_malformed:
  "json_Unmarshal '':)'' =
     Inl (SyntaxError (InvalidCharacter (CHR '':'') ''looking for beginning of value'') 1)"
  by (simp add: scanner_defs decoder_defs)

theorem failed_decode_wraps_error_witness:
  \<open>json_Unmarshal ''{"Time":1356124881,"Valid":true}'' = Inl (UnmarshalTypeError ''object'')
   \<and> json_Unmarshal ''[1356124881]'' = Inl (UnmarshalTypeError ''array'')
   \<and> json_Unmarshal ''"1356124881"'' = Inl (UnmarshalTypeError ''string'')
   \<and> json_Unmarshal '':)'' =
       Inl (SyntaxError (InvalidCharacter (CHR '':'') ''looking for beginning of value'') 1)
   \<and> ParseInt ''hello world'' 0 64 = Inl (NumError ''ParseInt'' ''hello world'' ErrSyntax)
   \<and> UnmarshalJSON (NewTimestamp Time_zero False) ''{"Time":1356124881,"Valid":true}''
     = (NewTimestamp Time_zero False,
        Some (Wrapped ''null: couldn't unmarshal JSON: '' (UnmarshalTypeError ''object'')))
   \<and> UnmarshalJSON (NewTimestamp Time_zero False) ''[1356124881]''
     = (NewTimestamp Time_zero False,
        Some (Wrapped ''null: couldn't unmarshal JSON: '' (UnmarshalTypeError ''array'')))
   \<and> UnmarshalJSON (NewTimestamp Time_zero False) ''"1356124881"''
     = (NewTimestamp Time_zero False,
        Some (Wrapped ''null: couldn't unmarshal JSON: '' (UnmarshalTypeError ''string'')))
   \<and> UnmarshalJSON (NewTimestamp Time_zero False) '':)''
     = (NewTimestamp Time_zero False,
        Some (Wrapped ''null: couldn't unmarshal JSON: ''
          (SyntaxError (InvalidCharacter (CHR '':'') ''looking for beginning of value'') 1)))
   \<and> UnmarshalText (NewTimestamp Time_zero False) ''hello world''
     = (NewTimestamp Time_zero False,
        Some (Wrapped ''null: couldn't unmarshal text: ''
          (NumError ''ParseInt'' ''hello world'' ErrSyntax)))\<close>
  using
    failed_decode_wraps_error [of \<open>''{"Time":1356124881,"Valid":true}''\<close>
      "UnmarshalTypeError ''object''" "NewTimestamp Time_zero False" "''hello world''"
      "NumError ''ParseInt'' ''hello world'' ErrSyntax"]
    failed_decode_wraps_error [of "''[1356124881]''" "UnmarshalTypeError ''array''"
      "NewTimestamp Time_zero False" "[]"]
    failed_decode_wraps_error [of \<open>''"1356124881"''\<close> "UnmarshalTypeError ''string''"
      "NewTimestamp Time_zero False" "[]"]
    failed_decode_wraps_error [of "'':)''"
      "SyntaxError (InvalidCharacter (CHR '':'') ''looking for beginning of value'') 1"
      "NewTimestamp Time_zero False" "[]"]
    json_Unmarshal_object json_Unmarshal_array json_Unmarshal_string json_Unmarshal_malformed
    ParseInt_hello_world
  by simp

text \<open>
  C2 as the specification states it fails: a valid receiver is still valid after
  \<open>UnmarshalJSON\<close> has failed on an object, and after \<open>UnmarshalText\<close> has failed on
  \<^verbatim>\<open>hello world\<close>.
\<close>

theorem failed_decode_invalid_counterexample:
  "snd (UnmarshalJSON (TimestampFrom (time_Unix 1356124881 0)) ''{}'') \<noteq> None
   \<and> Valid (fst (UnmarshalJSON (TimestampFrom (time_Unix 1356124881 0)) ''{}''))
   \<and> snd (UnmarshalText (TimestampFrom (time_Unix 1356124881 0)) ''hello world'') \<noteq> None
   \<and> Valid (fst (UnmarshalText (TimestampFrom (time_Unix 1356124881 0)) ''hello world''))"
  by (simp add: UnmarshalJSON_def UnmarshalText_def nullBytes_def json_Unmarshal_empty_object
      ParseInt_hello_world TimestampFrom_def NewTimestamp_def)

subsection \<open>Scan\<close>

text \<open>
  C4. \<open>Scan\<close> of an \<^verbatim>\<open>int64\<close>, such as \<^verbatim>\<open>Scan(int64(42))\<close>, and of any input
  that is neither null nor a native time value, fails with the type mismatch, and
  the Timestamp is invalid afterwards, whether it was valid before or not and
  whatever the failed call leaves in \<open>Time\<close>.
\<close>

theorem Scan_foreign_type:
  "(raw \<noteq> V_nil \<and> raw \<notin> range V_Time \<longrightarrow>
      snd (Scan t raw left) = Some (TypeMismatch ''unsupported type for Timestamp'')
    \<and> \<not> Valid (fst (Scan t raw left)))
   \<and> snd (Scan t (V_int64 42) left) = Some (TypeMismatch ''unsupported type for Timestamp'')
   \<and> \<not> Valid (fst (Scan t (V_int64 42) left))"
  by (cases raw) (auto simp: Scan_def)

text \<open>A string into a Timestamp that was valid, and 42 into one that was not.\<close>

theorem Scan_foreign_type_witness:
  "V_string ''2012-12-21'' \<noteq> V_nil \<and> V_string ''2012-12-21'' \<notin> range V_Time
   \<and> Valid (TimestampFrom (time_Unix 1356124881 0))
   \<and> snd (Scan (TimestampFrom (time_Unix 1356124881 0)) (V_string ''2012-12-21'') Time_zero)
       = Some (TypeMismatch ''unsupported type for Timestamp'')
   \<and> \<not> Valid (fst (Scan (TimestampFrom (time_Unix 1356124881 0)) (V_string ''2012-12-21'')
                       Time_zero))
   \<and> snd (Scan (NewTimestamp Time_zero False) (V_int64 42) Time_zero)
       = Some (TypeMismatch ''unsupported type for Timestamp'')
   \<and> \<not> Valid (fst (Scan (NewTimestamp Time_zero False) (V_int64 42) Time_zero))"
proof -
  have h: "V_string ''2012-12-21'' \<noteq> V_nil \<and> V_string ''2012-12-21'' \<notin> range V_Time"
    by auto
  have v: "Valid (TimestampFrom (time_Unix 1356124881 0))"
    by (simp add: TimestampFrom_def NewTimestamp_def)
  show ?thesis
    using h v
      Scan_foreign_type [of "V_string ''2012-12-21''" "TimestampFrom (time_Unix 1356124881 0)"
        Time_zero]
      Scan_foreign_type [of "V_int64 42" "NewTimestamp Time_zero False" Time_zero]
    by blast
qed

subsection \<open>Marshalling a valid Timestamp\<close>

declare decimal_ascii.simps [simp del]

lemma digits_char_of: "k < 10 \<Longrightarrow> digits ! k = char_of (48 + k)"
  using less_10_cases [of k] by (auto simp: digits_def char_of_def bit_Suc_0_iff)

lemma dec_eq_decimal_ascii: "dec u = decimal_ascii u"
proof (induction u rule: less_induct)
  case (less u)
  show ?case
  proof (cases "10 \<le> u")
    case False
    then show ?thesis
      by (simp add: dec_rec(2) decimal_ascii.simps [of u] digits_char_of)
  next
    case True
    then have lt: "u div 10 < u" by simp
    show ?thesis
      using True less.IH [OF lt]
      by (simp add: dec_rec(1) decimal_ascii.simps [of u] digits_char_of)
  qed
qed

lemma FormatInt_10_decimal_ascii: "FormatInt_10 i = decimal_ascii_int (sint i)"
proof (cases "i <s 0")
  case True
  then have "sint i < 0" by (simp add: word_sless_alt)
  then show ?thesis
    by (simp add: FormatInt_10_neg [OF True] decimal_ascii_int_def dec_eq_decimal_ascii
        unat_minus_eq_nat_sint [OF True])
next
  case False
  then have "\<not> sint i < 0" by (simp add: word_sless_alt)
  then show ?thesis
    by (simp add: FormatInt_10_nonneg [OF False] decimal_ascii_int_def dec_eq_decimal_ascii
        unat_eq_nat_sint [OF False])
qed

text \<open>
  C10. For a valid Timestamp \<open>MarshalJSON\<close> and \<open>MarshalText\<close> return the same
  bytes and no error, and the bytes are the decimal ASCII representation of
  \<^verbatim>\<open>t.Time.Unix()\<close>. For an invalid Timestamp they return \<^verbatim>\<open>null\<close> and the empty
  sequence, which differ. So the two encodings agree exactly on the valid
  Timestamps.
\<close>

theorem MarshalJSON_versus_MarshalText:
  "(Valid t \<longrightarrow>
      MarshalJSON t = MarshalText t
    \<and> MarshalJSON t = (decimal_ascii_int (sint (time_Unix_of (Time t))), None))
   \<and> (\<not> Valid t \<longrightarrow>
      MarshalJSON t = (''null'', None) \<and> MarshalText t = ([], None)
    \<and> MarshalJSON t \<noteq> MarshalText t)"
  by (simp add: MarshalJSON_def MarshalText_def FormatInt_10_decimal_ascii)

theorem MarshalJSON_versus_MarshalText_witness:
  "Valid (TimestampFrom (time_Unix 1356124881 0))
   \<and> MarshalJSON (TimestampFrom (time_Unix 1356124881 0)) = (''1356124881'', None)
   \<and> MarshalText (TimestampFrom (time_Unix 1356124881 0)) = (''1356124881'', None)
   \<and> \<not> Valid (NewTimestamp (time_Unix 1356124881 0) False)
   \<and> MarshalJSON (NewTimestamp (time_Unix 1356124881 0) False)
       \<noteq> MarshalText (NewTimestamp (time_Unix 1356124881 0) False)"
proof -
  have d: "decimal_ascii_int (sint (1356124881 :: int64)) = ''1356124881''"
    by (simp add: decimal_ascii_int_def decimal_ascii.simps char_of_def bit_Suc_0_iff)
  have v: "Valid (TimestampFrom (time_Unix 1356124881 0))"
    "\<not> Valid (NewTimestamp (time_Unix 1356124881 0) False)"
    "Time (TimestampFrom (time_Unix 1356124881 0)) = time_Unix 1356124881 0"
    by (simp_all add: TimestampFrom_def NewTimestamp_def)
  have a: "MarshalJSON (TimestampFrom (time_Unix 1356124881 0)) = (''1356124881'', None)"
    using MarshalJSON_versus_MarshalText [of "TimestampFrom (time_Unix 1356124881 0)"] v d
    by (auto simp: time_Unix_of_Unix)
  have b: "MarshalText (TimestampFrom (time_Unix 1356124881 0))
           = MarshalJSON (TimestampFrom (time_Unix 1356124881 0))"
    using MarshalJSON_versus_MarshalText [of "TimestampFrom (time_Unix 1356124881 0)"] v
    by auto
  have c: "MarshalJSON (NewTimestamp (time_Unix 1356124881 0) False)
           \<noteq> MarshalText (NewTimestamp (time_Unix 1356124881 0) False)"
    using MarshalJSON_versus_MarshalText [of "NewTimestamp (time_Unix 1356124881 0) False"] v
    by blast
  show ?thesis
    using v a c by (simp add: b)
qed

subsection \<open>Decoding text\<close>

lemma digits_value_ge: "1 \<le> b \<Longrightarrow> n \<le> digits_value b n cs"
proof (induction cs arbitrary: n)
  case Nil
  then show ?case by simp
next
  case (Cons c cs)
  have "n \<le> n * b" using Cons.prems by simp
  also have "\<dots> \<le> n * b + (case digit_val c of Some d \<Rightarrow> d | None \<Rightarrow> 0)" by simp
  also have "\<dots> \<le> digits_value b (n * b + (case digit_val c of Some d \<Rightarrow> d | None \<Rightarrow> 0)) cs"
    using Cons.IH [OF Cons.prems] .
  finally show ?case by simp
qed

lemma ParseUint_loop_digits_value:
  assumes "2 \<le> b"
    and "\<forall>c\<in>set cs. c \<noteq> CHR ''_'' \<and> (\<exists>d<b. digit_val c = Some d)"
    and "digits_value b n cs < 2 ^ 64"
  shows "ParseUint_loop b b0 (maxUint64 div b + 1) (2 ^ 64 - 1) n us cs
         = Inr (digits_value b n cs, us)"
  using assms(2,3)
proof (induction cs arbitrary: n)
  case Nil
  then show ?case by simp
next
  case (Cons c cs)
  from Cons.prems(1) obtain d where d: "d < b" "digit_val c = Some d" and u: "c \<noteq> CHR ''_''"
    by auto
  have b1: "1 \<le> b" using assms(1) by simp
  have le: "n * b + d \<le> digits_value b (n * b + d) cs"
    using digits_value_ge [OF b1] .
  have lt: "n * b + d < 2 ^ 64"
    using le Cons.prems(2) d by simp
  then have nb: "n * b \<le> 2 ^ 64 - 1" by simp
  have "n \<le> (2 ^ 64 - 1) div b"
    using nb assms(1) by (simp add: less_eq_div_iff_mult_less_eq)
  then have c: "\<not> maxUint64 div b + 1 \<le> n"
    by (simp add: maxUint64_def)
  have g: "(n * b) mod 2 ^ 64 = n * b" using lt by simp
  have h: "(n * b + d) mod 2 ^ 64 = n * b + d" using lt by simp
  have i: "\<not> (2::nat) ^ 64 - 1 < n * b + d" using lt by simp
  have "ParseUint_loop b b0 (maxUint64 div b + 1) (2 ^ 64 - 1) (n * b + d) us cs
        = Inr (digits_value b (n * b + d) cs, us)"
    using Cons.prems d by (intro Cons.IH) simp_all
  then show ?case
    using c i d u by (simp add: Let_def g h)
qed

lemma ParseInt_hex:
  assumes "hs \<noteq> []"
    and "\<forall>c\<in>set hs. c \<noteq> CHR ''_'' \<and> (\<exists>d<16. digit_val c = Some d)"
    and "digits_value 16 0 hs < 2 ^ 63"
  shows "ParseInt (''0x'' @ hs) 0 64 = Inr (word_of_nat (digits_value 16 0 hs))"
proof -
  have lt: "digits_value 16 0 hs < 2 ^ 64" using assms(3) by simp
  have loop: "ParseUint_loop 16 True (maxUint64 div 16 + 1) (2 ^ 64 - 1) 0 False hs
              = Inr (digits_value 16 0 hs, False)"
    using ParseUint_loop_digits_value [of 16 hs 0 True False] assms(2) lt by simp
  have len: "3 \<le> length (''0x'' @ hs)" using assms(1) by (cases hs) simp_all
  have pu: "ParseUint (''0x'' @ hs) 0 64 = (digits_value 16 0 hs, None)"
    using loop len by (simp add: ParseUint_def lower_def byte_def)
  show ?thesis
    using assms(3) pu by (simp add: ParseInt_def is_ErrRange_def)
qed

lemma ParseInt_0x10: "ParseInt ''0x10'' 0 64 = Inr 16"
  by (simp add: strconv_defs)

text \<open>
  C8. On an input that is neither empty nor \<^verbatim>\<open>null\<close>, \<open>UnmarshalText\<close> goes
  through \<^verbatim>\<open>strconv.ParseInt(str, 0, 64)\<close>; when that returns the \<^verbatim>\<open>int64\<close>
  \<open>v\<close> the Timestamp becomes valid and its \<open>Time\<close> is the instant whose
  \<^verbatim>\<open>Unix()\<close> is \<open>v\<close>. Base 0 detects the prefix: \<^verbatim>\<open>0x\<close> followed by
  hexadecimal digits that denote a number below \<open>2 ^ 63\<close> parses as that number,
  and the decimal text of any \<^verbatim>\<open>int64\<close> parses as that \<^verbatim>\<open>int64\<close>.
\<close>

theorem UnmarshalText_parses_int64:
  "(txt \<noteq> [] \<and> txt \<noteq> ''null'' \<and> ParseInt txt 0 64 = Inr v \<longrightarrow>
      UnmarshalText t txt = (t\<lparr>Time := time_Unix v 0, Valid := True\<rparr>, None)
    \<and> time_Unix_of (time_Unix v 0) = v)
   \<and> (hs \<noteq> [] \<and> (\<forall>c\<in>set hs. c \<noteq> CHR ''_'' \<and> (\<exists>d<16. digit_val c = Some d))
        \<and> digits_value 16 0 hs < 2 ^ 63 \<longrightarrow>
      ParseInt (''0x'' @ hs) 0 64 = Inr (word_of_nat (digits_value 16 0 hs)))
   \<and> ParseInt (FormatInt_10 w) 0 64 = Inr w"
proof (intro conjI impI)
  assume h: "txt \<noteq> [] \<and> txt \<noteq> ''null'' \<and> ParseInt txt 0 64 = Inr v"
  then show "UnmarshalText t txt = (t\<lparr>Time := time_Unix v 0, Valid := True\<rparr>, None)"
    by (simp add: UnmarshalText_def)
  show "time_Unix_of (time_Unix v 0) = v"
    by (rule time_Unix_of_Unix)
next
  assume "hs \<noteq> [] \<and> (\<forall>c\<in>set hs. c \<noteq> CHR ''_'' \<and> (\<exists>d<16. digit_val c = Some d))
          \<and> digits_value 16 0 hs < 2 ^ 63"
  then show "ParseInt (''0x'' @ hs) 0 64 = Inr (word_of_nat (digits_value 16 0 hs))"
    using ParseInt_hex [of hs] by blast
next
  show "ParseInt (FormatInt_10 w) 0 64 = Inr w"
    by (simp add: ParseInt_FormatInt_10)
qed

text \<open>The input \<^verbatim>\<open>0x10\<close>: the digits \<^verbatim>\<open>10\<close> in base 16 are sixteen.\<close>

theorem UnmarshalText_parses_int64_witness:
  "ParseInt ''0x10'' 0 64 = Inr 16
   \<and> UnmarshalText (NewTimestamp Time_zero False) ''0x10''
       = (NewTimestamp (time_Unix 16 0) True, None)
   \<and> time_Unix_of (time_Unix 16 0) = 16
   \<and> digit_val (CHR ''1'') = Some 1 \<and> digit_val (CHR ''0'') = Some 0
   \<and> digits_value 16 0 ''10'' = 16
   \<and> ParseInt (''0x'' @ ''10'') 0 64 = Inr (word_of_nat (digits_value 16 0 ''10''))"
proof -
  have p: "ParseInt ''0x10'' 0 64 = Inr 16"
    by (rule ParseInt_0x10)
  have d: "\<forall>c\<in>set ''10''. c \<noteq> CHR ''_'' \<and> (\<exists>d<16. digit_val c = Some d)"
    by (simp add: digit_val_def byte_def)
  have v: "digits_value 16 0 ''10'' = 16"
    by (simp add: digit_val_def byte_def)
  have e: "digit_val (CHR ''1'') = Some 1" "digit_val (CHR ''0'') = Some 0"
    by (simp_all add: digit_val_def byte_def)
  show ?thesis
    using p d v e
      UnmarshalText_parses_int64 [of "''0x10''" 16 "NewTimestamp Time_zero False" "''10''"]
    by (simp add: NewTimestamp_def)
qed

end
